theory Spec2Isabelle
  imports Complex_Main
begin

section \<open>Values, errors and the log\<close>

text \<open>
  The program (\<^verbatim>\<open>live_chat.py\<close>) reads one JSON file with \<^verbatim>\<open>json.load\<close> and
  passes the parsed values around.  A parsed value is \<^verbatim>\<open>None\<close>, a bool, a number, a
  string, a list or a dict with string keys.  A dict is an association list read with
  \<open>map_of\<close>: a parsed dict holds each key once, and where a list repeats a key its
  first binding is the one that counts.  The program never inspects a number, so a
  float is kept as a rational.
\<close>

datatype json =
    JNull
  | JBool bool
  | JInt int
  | JFloat rat
  | JStr string
  | JArr "json list"
  | JObj "(string \<times> json) list"

text \<open>
  Every exception the code can raise is a value.  \<open>ValueError\<close> and \<open>IOError\<close> carry
  the message of the \<^verbatim>\<open>raise\<close> statement.  \<open>AttributeError\<close> is \<^verbatim>\<open>.get\<close> on a value
  that is not a dict, \<open>KeyError\<close> a missing key of \<^verbatim>\<open>DEFAULT_INTENTS[...]\<close>,
  \<open>TypeError\<close> is \<^verbatim>\<open>len\<close> of a number or a bool, \<open>JSONDecodeError\<close> is
  \<^verbatim>\<open>json.load\<close> on text that is not JSON, and \<open>ClientError\<close> is any exception raised
  inside the discord.py library.
\<close>

datatype error =
    ValueError string
  | IOError string
  | AttributeError
  | KeyError string
  | TypeError
  | JSONDecodeError
  | ClientError

text \<open>
  The three \<^verbatim>\<open>LOGGER.info\<close> calls of the program, with the values their f-strings
  format: \<^verbatim>\<open>[LiveChatBot] ({self.name}) intents.{intent_name} = `{intent}`.\<close>,
  \<^verbatim>\<open>[LiveChatBot] ({self.name}) instance created.\<close> and
  \<^verbatim>\<open>[DiscordBotManager] {len(self.bots)} LiveChatBot instances created.\<close>
\<close>

datatype log_entry =
    IntentLog json string json
  | InstanceCreated json
  | BotsCreated nat

text \<open>
  A computation returns its value or the exception it raised, together with the log
  lines it wrote before that.  \<open>and_then\<close> is sequencing: an exception ends the
  sequence, the log lines written so far stay written.
\<close>

type_synonym 'a result = "(error + 'a) \<times> log_entry list"

definition raise :: "error \<Rightarrow> 'a result" where
  "raise e = (Inl e, [])"

definition ret :: "'a \<Rightarrow> 'a result" where
  "ret x = (Inr x, [])"

definition info :: "log_entry \<Rightarrow> unit result" where
  "info l = (Inr (), [l])"

definition and_then :: "'a result \<Rightarrow> ('a \<Rightarrow> 'b result) \<Rightarrow> 'b result" where
  "and_then m f =
     (case m of
        (Inl e, l) \<Rightarrow> (Inl e, l)
      | (Inr x, l) \<Rightarrow> (case f x of (r, l') \<Rightarrow> (r, l @ l')))"

text \<open>
  \<^verbatim>\<open>v.get\<close>: the attribute lookup succeeds on a dict and gives its bound method
  \<^verbatim>\<open>get(key, default)\<close>; every other value has no such attribute.
  \<^verbatim>\<open>d[key]\<close> on a dict raises \<open>KeyError\<close> for a missing key.
\<close>

definition getattr_get :: "json \<Rightarrow> (string \<Rightarrow> json \<Rightarrow> json) result" where
  "getattr_get v =
     (case v of
        JObj kvs \<Rightarrow> ret (\<lambda>k d. case map_of kvs k of Some x \<Rightarrow> x | None \<Rightarrow> d)
      | _ \<Rightarrow> raise AttributeError)"

definition subscript :: "(string \<times> json) list \<Rightarrow> string \<Rightarrow> json result" where
  "subscript d k = (case map_of d k of Some x \<Rightarrow> ret x | None \<Rightarrow> raise (KeyError k))"

section \<open>The client library\<close>

text \<open>
  \<^verbatim>\<open>discord.Intents\<close> and \<^verbatim>\<open>discord.Client\<close> belong to the discord.py library, not to
  this program.  The program makes three kinds of calls into it: \<^verbatim>\<open>discord.Intents()\<close>,
  an assignment \<^verbatim>\<open>intents.<flag> = value\<close>, and \<^verbatim>\<open>super().__init__(intents = ...)\<close>.
  They are parameters of the model; \<open>None\<close> is an exception raised by the library.
\<close>

record ('i, 'c) discord =
  Intents :: "'i"
  set_flag :: "'i \<Rightarrow> string \<Rightarrow> json \<Rightarrow> 'i option"
  Client_init :: "'i option \<Rightarrow> 'c option"

definition from_library :: "'a option \<Rightarrow> 'a result" where
  "from_library r = (case r of Some x \<Rightarrow> ret x | None \<Rightarrow> raise ClientError)"

text \<open>
  A stand-in for the library where a theorem is evaluated at a concrete input: it
  accepts every call and keeps what the program handed to it, the flag assignments in
  the order they were made and the \<^verbatim>\<open>intents\<close> argument of the client.
\<close>

definition recording :: "((string \<times> json) list, (string \<times> json) list option) discord" where
  "recording =
     \<lparr>Intents = [],
      set_flag = (\<lambda>i a v. Some (i @ [(a, v)])),
      Client_init = (\<lambda>intents. Some intents)\<rparr>"

section \<open>LiveChatBot\<close>

definition DEFAULT_INTENTS :: "(string \<times> json) list" where
  "DEFAULT_INTENTS =
     [(''auto_moderation'', JBool False),
      (''auto_moderation_configuration'', JBool False),
      (''auto_moderation_execution'', JBool False),
      (''bans'', JBool False),
      (''dm_messages'', JBool False),
      (''dm_reactions'', JBool False),
      (''dm_typing'', JBool False),
      (''emojis_and_stickers'', JBool False),
      (''guild_messages'', JBool True),
      (''guild_reactions'', JBool False),
      (''guild_scheduled_events'', JBool False),
      (''guild_typing'', JBool False),
      (''guilds'', JBool True),
      (''integrations'', JBool False),
      (''invites'', JBool False),
      (''members'', JBool True),
      (''message_content'', JBool True),
      (''presences'', JBool False),
      (''voice_states'', JBool False),
      (''webhooks'', JBool True)]"

text \<open>
  \<^verbatim>\<open>get_intent(self, configuration, intent_name)\<close>.  \<open>self_name\<close> is \<^verbatim>\<open>self.name\<close>,
  the only attribute of \<^verbatim>\<open>self\<close> it reads.  Python evaluates \<^verbatim>\<open>configuration.get\<close>
  first, then the default \<^verbatim>\<open>DEFAULT_INTENTS[intent_name]\<close>, then makes the call.
\<close>

definition get_intent :: "json \<Rightarrow> json \<Rightarrow> string option \<Rightarrow> json result" where
  "get_intent self_name configuration intent_name =
     (if configuration = JNull then raise (ValueError ''configuration is null.'')
      else case intent_name of
        None \<Rightarrow> raise (ValueError ''intent_name is null.'')
      | Some n \<Rightarrow>
          and_then (getattr_get configuration) (\<lambda>get.
          and_then (subscript DEFAULT_INTENTS n) (\<lambda>default.
          let intent = get n default in
          and_then (info (IntentLog self_name n intent)) (\<lambda>_.
          ret intent))))"

text \<open>
  The twenty assignments of \<^verbatim>\<open>build_intents\<close>, in the order of the source: each
  evaluates \<^verbatim>\<open>self.get_intent(configuration, "<flag>")\<close> and then assigns the
  attribute of the same name.
\<close>

definition INTENT_ATTRIBUTES :: "string list" where
  "INTENT_ATTRIBUTES =
     [''auto_moderation'',
      ''auto_moderation_configuration'',
      ''auto_moderation_execution'',
      ''bans'',
      ''dm_messages'',
      ''dm_reactions'',
      ''dm_typing'',
      ''emojis_and_stickers'',
      ''guild_messages'',
      ''guild_reactions'',
      ''guild_scheduled_events'',
      ''guild_typing'',
      ''guilds'',
      ''integrations'',
      ''invites'',
      ''members'',
      ''message_content'',
      ''presences'',
      ''voice_states'',
      ''webhooks'']"

fun assign_intents ::
  "('i, 'c) discord \<Rightarrow> json \<Rightarrow> json \<Rightarrow> string list \<Rightarrow> 'i \<Rightarrow> 'i result" where
  "assign_intents lib self_name configuration [] intents = ret intents"
| "assign_intents lib self_name configuration (a # as) intents =
     and_then (get_intent self_name configuration (Some a)) (\<lambda>v.
     and_then (from_library (set_flag lib intents a v)) (\<lambda>intents'.
     assign_intents lib self_name configuration as intents'))"

text \<open>
  \<^verbatim>\<open>build_intents(self, configuration)\<close>.  The function has no \<^verbatim>\<open>return\<close>
  statement: after the last assignment it returns \<^verbatim>\<open>None\<close> and the local
  \<^verbatim>\<open>intents\<close> object is dropped.
\<close>

definition build_intents :: "('i, 'c) discord \<Rightarrow> json \<Rightarrow> json \<Rightarrow> 'i option result" where
  "build_intents lib self_name configuration =
     (if configuration = JNull then raise (ValueError ''configuration is null.'')
      else
        and_then (assign_intents lib self_name configuration INTENT_ATTRIBUTES (Intents lib))
          (\<lambda>intents. ret None))"

text \<open>
  \<^verbatim>\<open>LiveChatBot.__init__(self, configuration)\<close>.  The instance keeps the two
  attributes the constructor assigns and whatever the superclass constructor set up.
\<close>

record 'c live_chat_bot =
  name :: json
  display_name :: json
  client :: "'c"

definition LiveChatBot :: "('i, 'c) discord \<Rightarrow> json \<Rightarrow> 'c live_chat_bot result" where
  "LiveChatBot lib configuration =
     (if configuration = JNull then raise (ValueError ''configuration is null.'')
      else
        and_then (getattr_get configuration) (\<lambda>get.
        let auth = get ''auth'' (JStr '''') in
        if auth = JNull \<or> auth = JStr ''''
        then raise (ValueError ''No API authentication token was provided in the bot configuration.'')
        else
          let self_name = get ''name'' (JStr ''live_chat'');
              self_display_name = get ''display_name'' (JStr ''Live Chat'')
          in
          and_then (build_intents lib self_name (get ''intents'' (JObj DEFAULT_INTENTS))) (\<lambda>intents.
          and_then (from_library (Client_init lib intents)) (\<lambda>c.
          and_then (info (InstanceCreated self_name)) (\<lambda>_.
          ret \<lparr>name = self_name, display_name = self_display_name, client = c\<rparr>)))))"

section \<open>DiscordBotManager\<close>

text \<open>
  What the file system holds at a path: nothing that \<^verbatim>\<open>isfile\<close> accepts, a file
  that \<^verbatim>\<open>access(path, R_OK)\<close> refuses, or a readable file.  The content of a
  readable file is what \<^verbatim>\<open>json.load\<close> makes of it: a value, or \<open>None\<close> when the
  text is not JSON.
\<close>

datatype file_state = NoFile | Unreadable | Readable "json option"

type_synonym filesystem = "string \<Rightarrow> file_state"

definition isfile :: "filesystem \<Rightarrow> string \<Rightarrow> bool" where
  "isfile fs path = (fs path \<noteq> NoFile)"

definition access_R_OK :: "filesystem \<Rightarrow> string \<Rightarrow> bool" where
  "access_R_OK fs path = (case fs path of Readable content \<Rightarrow> True | _ \<Rightarrow> False)"

definition json_load :: "filesystem \<Rightarrow> string \<Rightarrow> json result" where
  "json_load fs path =
     (case fs path of Readable (Some v) \<Rightarrow> ret v | _ \<Rightarrow> raise JSONDecodeError)"

text \<open>
  \<^verbatim>\<open>len(v)\<close> and \<^verbatim>\<open>for x in v\<close> on a parsed value.  A dict counts and yields its
  keys, each once, in the order of their first binding; a string yields its
  characters as strings of length one; a number or a bool has neither.
\<close>

fun dict_keys :: "(string \<times> json) list \<Rightarrow> string list" where
  "dict_keys [] = []"
| "dict_keys ((k, v) # kvs) = k # filter (\<lambda>k'. k' \<noteq> k) (dict_keys kvs)"

definition py_iter :: "json \<Rightarrow> json list result" where
  "py_iter v =
     (case v of
        JArr xs \<Rightarrow> ret xs
      | JObj kvs \<Rightarrow> ret (map JStr (dict_keys kvs))
      | JStr s \<Rightarrow> ret (map (\<lambda>c. JStr [c]) s)
      | _ \<Rightarrow> raise TypeError)"

definition py_len :: "json \<Rightarrow> nat result" where
  "py_len v = and_then (py_iter v) (\<lambda>xs. ret (length xs))"

text \<open>
  The loop \<^verbatim>\<open>for bot in bots_data: self.bots.append(LiveChatBot(bot))\<close>;
  \<open>bot_data\<close> is the loop variable \<^verbatim>\<open>bot\<close> and \<open>self_bots\<close> is \<^verbatim>\<open>self.bots\<close> so far.
\<close>

fun create_bots ::
  "('i, 'c) discord \<Rightarrow> json list \<Rightarrow> 'c live_chat_bot list \<Rightarrow> 'c live_chat_bot list result" where
  "create_bots lib [] self_bots = ret self_bots"
| "create_bots lib (bot_data # rest) self_bots =
     and_then (LiveChatBot lib bot_data) (\<lambda>b. create_bots lib rest (self_bots @ [b]))"

record 'c discord_bot_manager =
  listen_address :: json
  listen_port :: json
  bots :: "'c live_chat_bot list"

text \<open>\<^verbatim>\<open>DiscordBotManager.__init__(self, configuration_path)\<close>.\<close>

definition DiscordBotManager ::
  "('i, 'c) discord \<Rightarrow> filesystem \<Rightarrow> string option \<Rightarrow> 'c discord_bot_manager result" where
  "DiscordBotManager lib fs configuration_path =
     (case configuration_path of
        None \<Rightarrow> raise (ValueError ''configuration_path is null.'')
      | Some path \<Rightarrow>
          if \<not> isfile fs path then raise (IOError ''configuration_path is not a file.'')
          else if \<not> access_R_OK fs path then raise (IOError ''configuration_path is not readable.'')
          else
            and_then (json_load fs path) (\<lambda>json_data.
            and_then (getattr_get json_data) (\<lambda>get.
            let self_listen_address = get ''address'' (JStr ''0.0.0.0'');
                self_listen_port = get ''port'' (JInt 8080);
                bots_data = get ''bots'' (JArr [])
            in
            and_then
              (if bots_data = JNull then ret []
               else
                 and_then (py_len bots_data) (\<lambda>n.
                 if n > 0
                 then and_then (py_iter bots_data) (\<lambda>xs. create_bots lib xs [])
                 else ret []))
              (\<lambda>self_bots.
            and_then (info (BotsCreated (length self_bots))) (\<lambda>_.
            ret \<lparr>listen_address = self_listen_address,
                 listen_port = self_listen_port,
                 bots = self_bots\<rparr>)))))"

section \<open>Program entry\<close>

text \<open>
  What the module-level code reads from its surroundings: \<^verbatim>\<open>sys.argv\<close>,
  \<^verbatim>\<open>os.path.realpath(".")\<close> and the file system.  \<open>os_path_join\<close> is
  \<^verbatim>\<open>os.path.join\<close> of two components on a POSIX system.  The set-up of the
  logging handlers at the top of the module is not part of the model; the model starts
  where the module reads its arguments.
\<close>

record environment =
  argv :: "string list"
  cwd :: string
  files :: filesystem

definition os_path_join :: "string \<Rightarrow> string \<Rightarrow> string" where
  "os_path_join a b =
     (if take 1 b = ''/'' then b
      else if a = [] \<or> last a = CHR ''/'' then a @ b
      else a @ ''/'' @ b)"

definition DISCORD_CONFIGURATION_PATH :: "environment \<Rightarrow> string" where
  "DISCORD_CONFIGURATION_PATH env =
     (let arguments = drop 1 (argv env);
          arguments_count = length arguments;
          configuration_directory_path =
            (if arguments_count \<ge> 1 then arguments ! 0 else cwd env);
          configuration_directory_path = os_path_join configuration_directory_path []
      in os_path_join configuration_directory_path ''configuration.json'')"

definition DISCORD_BOT_MANAGER ::
  "('i, 'c) discord \<Rightarrow> environment \<Rightarrow> 'c discord_bot_manager result" where
  "DISCORD_BOT_MANAGER lib env =
     DiscordBotManager lib (files env) (Some (DISCORD_CONFIGURATION_PATH env))"

text \<open>
  The module has no \<^verbatim>\<open>try\<close>: an exception raised while it runs ends the
  interpreter with exit status 1, and a run that reaches the end of the module exits
  with status 0.
\<close>

definition exit_status :: "'a result \<Rightarrow> nat" where
  "exit_status r = (case fst r of Inl e \<Rightarrow> 1 | Inr x \<Rightarrow> 0)"

section \<open>The session state machine of the design\<close>

text \<open>
  Modelled from the spec: the connection state machine of \<^verbatim>\<open>ChatBridgeSession\<close>
  (section 4.3 of the specification).  The source file has no session class and no
  connection handling of its own (\<^verbatim>\<open>LiveChatBot\<close> only subclasses the library's
  client), so the transitions are the ones the specification lists:
  \<^item> \<open>Disconnected\<close> to \<open>Connecting\<close> on session start or after the backoff delay;
  \<^item> \<open>Connecting\<close> to \<open>Connected\<close> on a successful gateway handshake;
  \<^item> \<open>Connected\<close> to \<open>Degraded reason\<close> on a transient transport error;
  \<^item> \<open>Degraded reason\<close> to \<open>Connected\<close> on a recovery signal;
  \<^item> \<open>Connected\<close> or \<open>Degraded reason\<close> to \<open>Disconnected\<close> on connection loss;
  \<^item> any state that is not yet shutting down or closed to \<open>ShuttingDown\<close> on an
    explicit stop, and \<open>ShuttingDown\<close> to \<open>Closed\<close> once the queue is drained or
    discarded.
  An event that has no transition in the current state is not taken (\<open>None\<close>).
\<close>

datatype session_state =
    Disconnected
  | Connecting
  | Connected
  | Degraded string
  | ShuttingDown
  | Closed

datatype session_event =
    SessionStart
  | BackoffElapsed
  | HandshakeSucceeded
  | TransientError string
  | RecoverySignal
  | ConnectionLost
  | ExplicitStop
  | QueueDrained

fun step :: "session_state \<Rightarrow> session_event \<Rightarrow> session_state option" where
  "step Closed e = None"
| "step ShuttingDown QueueDrained = Some Closed"
| "step ShuttingDown e = None"
| "step s ExplicitStop = Some ShuttingDown"
| "step Disconnected SessionStart = Some Connecting"
| "step Disconnected BackoffElapsed = Some Connecting"
| "step Connecting HandshakeSucceeded = Some Connected"
| "step Connected (TransientError reason) = Some (Degraded reason)"
| "step (Degraded reason) RecoverySignal = Some Connected"
| "step Connected ConnectionLost = Some Disconnected"
| "step (Degraded reason) ConnectionLost = Some Disconnected"
| "step s e = None"

text \<open>
  The states a session passes through while it processes a sequence of events, the
  starting state first.
\<close>

fun run :: "session_state \<Rightarrow> session_event list \<Rightarrow> session_state list" where
  "run s [] = [s]"
| "run s (e # es) = (case step s e of None \<Rightarrow> run s es | Some s' \<Rightarrow> s # run s' es)"

section \<open>Intent resolution as the specification words it\<close>

text \<open>
  \<^verbatim>\<open>IntentSet.resolve(overrides)\<close> in the words of the specification: for each
  recognized flag name, in the order of the table, the value is \<^verbatim>\<open>overrides[name]\<close>
  if the name is present and the documented default otherwise.  It is compared with
  what \<open>build_intents\<close> computes, logs and returns.
\<close>

definition resolve :: "(string \<times> json) list \<Rightarrow> (string \<times> json) list" where
  "resolve overrides =
     map (\<lambda>(n, d). (n, case map_of overrides n of Some v \<Rightarrow> v | None \<Rightarrow> d)) DEFAULT_INTENTS"

section \<open>Sequencing\<close>

lemma and_then_raise [simp]: "and_then (raise e) f = raise e"
  by (simp add: and_then_def raise_def)

lemma and_then_ret [simp]: "and_then (ret x) f = f x"
  by (simp add: and_then_def ret_def split: prod.splits)

lemma and_then_pair [simp]:
  "and_then (Inl e, l) f = (Inl e, l)"
  "and_then (Inr x, l) f = (fst (f x), l @ snd (f x))"
  by (simp_all add: and_then_def split: prod.splits)

lemma fst_and_then:
  "fst (and_then m f) = (case fst m of Inl e \<Rightarrow> Inl e | Inr x \<Rightarrow> fst (f x))"
  by (cases m) (simp add: and_then_def split: sum.splits prod.splits)

lemma from_library_simps [simp]:
  "from_library (Some x) = ret x"
  "from_library None = raise ClientError"
  by (simp_all add: from_library_def)

section \<open>The table of defaults\<close>

lemma default_table:
  "list_all (\<lambda>(k, v). map_of DEFAULT_INTENTS k = Some v \<and>
      v = JBool (k \<in> set [''guild_messages'', ''guilds'', ''members'', ''message_content'', ''webhooks'']))
     DEFAULT_INTENTS"
  by code_simp

lemma default_table_lookup:
  "(n, d) \<in> set DEFAULT_INTENTS \<Longrightarrow> map_of DEFAULT_INTENTS n = Some d"
  using default_table by (auto simp add: list_all_iff simp del: map_of_eq_Some_iff)

lemma default_lookup:
  assumes "n \<in> fst ` set DEFAULT_INTENTS"
  shows "map_of DEFAULT_INTENTS n =
    Some (JBool (n \<in> {''guild_messages'', ''guilds'', ''members'', ''message_content'', ''webhooks''}))"
proof -
  from assms obtain v where "(n, v) \<in> set DEFAULT_INTENTS" by auto
  with default_table show ?thesis
    by (auto simp add: list_all_iff simp del: map_of_eq_Some_iff)
qed

text \<open>The attributes \<open>build_intents\<close> assigns are the keys of the table, in its order.\<close>

lemma attributes_are_keys: "map fst DEFAULT_INTENTS = INTENT_ATTRIBUTES"
  by (simp add: DEFAULT_INTENTS_def INTENT_ATTRIBUTES_def)

section \<open>Looking up and assigning the intents\<close>

lemma get_intent_JObj:
  "get_intent self_name (JObj overrides) (Some n) =
     (case map_of DEFAULT_INTENTS n of
        None \<Rightarrow> (Inl (KeyError n), [])
      | Some d \<Rightarrow>
          (Inr (case map_of overrides n of Some v \<Rightarrow> v | None \<Rightarrow> d),
           [IntentLog self_name n (case map_of overrides n of Some v \<Rightarrow> v | None \<Rightarrow> d)]))"
  by (simp add: get_intent_def getattr_get_def subscript_def info_def ret_def raise_def
      split: option.splits)

lemma get_intent_not_dict:
  assumes "configuration \<noteq> JNull" and "\<forall>kvs. configuration \<noteq> JObj kvs"
  shows "get_intent self_name configuration (Some n) = (Inl AttributeError, [])"
  using assms by (cases configuration) (simp_all add: get_intent_def getattr_get_def raise_def)

text \<open>
  When the library accepts each assignment, the loop of assignments runs to its end
  and logs one line per flag.
\<close>

lemma assign_intents_accepted:
  assumes "\<forall>(n, d) \<in> set tbl. map_of DEFAULT_INTENTS n = Some d"
    and "\<forall>i. \<forall>(n, d) \<in> set tbl.
           set_flag lib i n (case map_of ov n of Some v \<Rightarrow> v | None \<Rightarrow> d) \<noteq> None"
  shows "\<exists>i'. assign_intents lib self_name (JObj ov) (map fst tbl) i =
           (Inr i', map (\<lambda>(n, d). IntentLog self_name n (case map_of ov n of Some v \<Rightarrow> v | None \<Rightarrow> d)) tbl)"
  using assms
proof (induction tbl arbitrary: i)
  case Nil
  then show ?case by (simp add: ret_def)
next
  case (Cons p tbl)
  obtain n d where p: "p = (n, d)" by (cases p)
  from Cons.prems p have look: "map_of DEFAULT_INTENTS n = Some d" by simp
  from Cons.prems(2) p obtain i1
    where i1: "set_flag lib i n (case map_of ov n of Some v \<Rightarrow> v | None \<Rightarrow> d) = Some i1"
    by fastforce
  from Cons.prems have
    "\<forall>(n, d) \<in> set tbl. map_of DEFAULT_INTENTS n = Some d"
    "\<forall>i. \<forall>(n, d) \<in> set tbl.
        set_flag lib i n (case map_of ov n of Some v \<Rightarrow> v | None \<Rightarrow> d) \<noteq> None"
    by simp_all
  from Cons.IH [OF this] obtain i' where
    "assign_intents lib self_name (JObj ov) (map fst tbl) i1 =
       (Inr i', map (\<lambda>(n, d). IntentLog self_name n (case map_of ov n of Some v \<Rightarrow> v | None \<Rightarrow> d)) tbl)"
    by blast
  with p look i1 show ?case
    by (simp add: get_intent_JObj)
qed

lemma build_intents_accepted:
  assumes "\<forall>i. \<forall>(n, v) \<in> set (resolve ov). set_flag lib i n v \<noteq> None"
  shows "build_intents lib self_name (JObj ov) =
           (Inr None, map (\<lambda>(n, v). IntentLog self_name n v) (resolve ov))"
proof -
  have 1: "\<forall>(n, d) \<in> set DEFAULT_INTENTS. map_of DEFAULT_INTENTS n = Some d"
    using default_table_lookup by blast
  have 2: "\<forall>i. \<forall>(n, d) \<in> set DEFAULT_INTENTS.
           set_flag lib i n (case map_of ov n of Some v \<Rightarrow> v | None \<Rightarrow> d) \<noteq> None"
    using assms by (force simp add: resolve_def)
  from assign_intents_accepted [OF 1 2, of self_name "Intents lib"] obtain i' where
    "assign_intents lib self_name (JObj ov) INTENT_ATTRIBUTES (Intents lib) =
       (Inr i', map (\<lambda>(n, d). IntentLog self_name n (case map_of ov n of Some v \<Rightarrow> v | None \<Rightarrow> d)) DEFAULT_INTENTS)"
    by (auto simp add: attributes_are_keys)
  then show ?thesis
    by (simp add: build_intents_def resolve_def ret_def case_prod_unfold comp_def)
qed

text \<open>
  On a dict, the loop of assignments ends normally or with an exception of the
  library, never with one of the program's own.
\<close>

lemma assign_intents_outcome:
  assumes "set attrs \<subseteq> fst ` set DEFAULT_INTENTS"
  shows "fst (assign_intents lib self_name (JObj ov) attrs i) = Inl ClientError \<or>
         (\<exists>i'. fst (assign_intents lib self_name (JObj ov) attrs i) = Inr i')"
  using assms
proof (induction attrs arbitrary: i)
  case Nil
  then show ?case by (simp add: ret_def)
next
  case (Cons a attrs)
  then obtain d where d: "map_of DEFAULT_INTENTS a = Some d"
    using default_lookup by fastforce
  show ?case
  proof (cases "set_flag lib i a (case map_of ov a of Some v \<Rightarrow> v | None \<Rightarrow> d)")
    case None
    with d show ?thesis by (simp add: get_intent_JObj raise_def)
  next
    case (Some i1)
    with d Cons.IH [of i1] Cons.prems show ?thesis
      by (simp add: get_intent_JObj)
  qed
qed

lemma build_intents_outcome:
  "fst (build_intents lib self_name (JObj ov)) = Inl ClientError \<or>
   fst (build_intents lib self_name (JObj ov)) = Inr None"
proof -
  have "set INTENT_ATTRIBUTES \<subseteq> fst ` set DEFAULT_INTENTS"
    by (simp add: attributes_are_keys [symmetric])
  from assign_intents_outcome [OF this, of lib self_name ov "Intents lib"]
  show ?thesis
    by (auto simp add: build_intents_def fst_and_then ret_def)
qed

lemma build_intents_not_dict:
  assumes "configuration \<noteq> JNull" and "\<forall>kvs. configuration \<noteq> JObj kvs"
  shows "build_intents lib self_name configuration = (Inl AttributeError, [])"
  using assms
  by (simp add: build_intents_def INTENT_ATTRIBUTES_def get_intent_not_dict)

section \<open>Claims about intent resolution\<close>

text \<open>
  Claim C1.  The claim: the result of \<open>build_intents\<close> is an intents object that holds
  exactly the recognized flags, each with its override or its documented default, and
  the session is constructed with this result.

  The code computes every flag and assigns it to a local \<^verbatim>\<open>discord.Intents\<close> object,
  and \<^verbatim>\<open>__init__\<close> passes the result of \<^verbatim>\<open>build_intents\<close> to the superclass as
  \<^verbatim>\<open>intents\<close>; but \<^verbatim>\<open>build_intents\<close> has no \<^verbatim>\<open>return\<close> statement.  Evaluated on the
  configuration \<^verbatim>\<open>{"auth": "token"}\<close>: the call returns \<^verbatim>\<open>None\<close> after logging the
  twenty flags, the local object that held the twenty flags is dropped, and the client
  is constructed with \<^verbatim>\<open>intents = None\<close>.
\<close>

theorem C1_build_intents_returns_None:
  "build_intents recording (JStr ''live_chat'') (JObj DEFAULT_INTENTS) =
     (Inr None, map (\<lambda>(n, v). IntentLog (JStr ''live_chat'') n v) DEFAULT_INTENTS)
   \<and> fst (assign_intents recording (JStr ''live_chat'') (JObj DEFAULT_INTENTS)
            INTENT_ATTRIBUTES (Intents recording)) = Inr DEFAULT_INTENTS
   \<and> fst (LiveChatBot recording (JObj [(''auth'', JStr ''token'')])) =
       Inr \<lparr>name = JStr ''live_chat'', display_name = JStr ''Live Chat'', client = None\<rparr>"
  by code_simp

text \<open>
  Claim C2.  For every overrides mapping and every recognized flag name (a key of
  \<^verbatim>\<open>DEFAULT_INTENTS\<close>), \<open>get_intent\<close> returns \<^verbatim>\<open>overrides[name]\<close> when the name is
  present in the mapping and the default otherwise; the default is true exactly for
  \<^verbatim>\<open>guild_messages\<close>, \<^verbatim>\<open>guilds\<close>, \<^verbatim>\<open>members\<close>, \<^verbatim>\<open>message_content\<close> and \<^verbatim>\<open>webhooks\<close>
  and false for every other recognized flag.  The call logs the one line that reports
  the value it returns.
\<close>

theorem C2_get_intent_override_or_default:
  assumes "n \<in> fst ` set DEFAULT_INTENTS"
  shows "get_intent self_name (JObj overrides) (Some n) =
     (let intent =
        (case map_of overrides n of
           Some v \<Rightarrow> v
         | None \<Rightarrow> JBool (n \<in> {''guild_messages'', ''guilds'', ''members'',
                                 ''message_content'', ''webhooks''}))
      in (Inr intent, [IntentLog self_name n intent]))"
  unfolding get_intent_JObj default_lookup [OF assms]
  by (simp add: Let_def split: option.splits)

theorem C2_witness:
  "''guilds'' \<in> fst ` set DEFAULT_INTENTS
   \<and> get_intent (JStr ''live_chat'') (JObj [(''guilds'', JBool False)]) (Some ''guilds'') =
       (Inr (JBool False), [IntentLog (JStr ''live_chat'') ''guilds'' (JBool False)])
   \<and> get_intent (JStr ''live_chat'') (JObj [(''guilds'', JBool False)]) (Some ''webhooks'') =
       (Inr (JBool True), [IntentLog (JStr ''live_chat'') ''webhooks'' (JBool True)])
   \<and> get_intent (JStr ''live_chat'') (JObj [(''guilds'', JBool False)]) (Some ''bans'') =
       (Inr (JBool False), [IntentLog (JStr ''live_chat'') ''bans'' (JBool False)])"
proof -
  have k: "''guilds'' \<in> fst ` set DEFAULT_INTENTS" "''webhooks'' \<in> fst ` set DEFAULT_INTENTS"
    "''bans'' \<in> fst ` set DEFAULT_INTENTS"
    by (simp_all add: DEFAULT_INTENTS_def)
  show ?thesis
    using k(1)
      C2_get_intent_override_or_default [OF k(1), of "JStr ''live_chat''" "[(''guilds'', JBool False)]"]
      C2_get_intent_override_or_default [OF k(2), of "JStr ''live_chat''" "[(''guilds'', JBool False)]"]
      C2_get_intent_override_or_default [OF k(3), of "JStr ''live_chat''" "[(''guilds'', JBool False)]"]
    by (simp add: Let_def)
qed

section \<open>LiveChatBot construction\<close>

lemma LiveChatBot_authenticated:
  assumes "map_of kvs ''auth'' = Some auth" and "auth \<noteq> JNull" and "auth \<noteq> JStr ''''"
  shows "LiveChatBot lib (JObj kvs) =
     and_then
       (build_intents lib (case map_of kvs ''name'' of Some v \<Rightarrow> v | None \<Rightarrow> JStr ''live_chat'')
          (case map_of kvs ''intents'' of Some v \<Rightarrow> v | None \<Rightarrow> JObj DEFAULT_INTENTS))
       (\<lambda>intents.
     and_then (from_library (Client_init lib intents)) (\<lambda>c.
     and_then (info (InstanceCreated (case map_of kvs ''name'' of Some v \<Rightarrow> v | None \<Rightarrow> JStr ''live_chat''))) (\<lambda>_.
     ret \<lparr>name = (case map_of kvs ''name'' of Some v \<Rightarrow> v | None \<Rightarrow> JStr ''live_chat''),
          display_name = (case map_of kvs ''display_name'' of Some v \<Rightarrow> v | None \<Rightarrow> JStr ''Live Chat''),
          client = c\<rparr>)))"
  using assms by (simp add: LiveChatBot_def getattr_get_def Let_def)

lemma LiveChatBot_unauthenticated:
  assumes "map_of kvs ''auth'' \<in> {None, Some JNull, Some (JStr '''')}"
  shows "LiveChatBot lib (JObj kvs) =
     (Inl (ValueError ''No API authentication token was provided in the bot configuration.''), [])"
  using assms by (auto simp add: LiveChatBot_def getattr_get_def Let_def raise_def)

lemma LiveChatBot_not_dict:
  assumes "configuration \<noteq> JNull" and "\<forall>kvs. configuration \<noteq> JObj kvs"
  shows "LiveChatBot lib configuration = (Inl AttributeError, [])"
  using assms by (cases configuration) (simp_all add: LiveChatBot_def getattr_get_def raise_def)

lemma LiveChatBot_None:
  "LiveChatBot lib JNull = (Inl (ValueError ''configuration is null.''), [])"
  by (simp add: LiveChatBot_def raise_def)

lemma build_intents_None:
  "build_intents lib self_name JNull = (Inl (ValueError ''configuration is null.''), [])"
  by (simp add: build_intents_def raise_def)

lemma LiveChatBot_outcome:
  assumes "map_of kvs ''auth'' = Some auth" and "auth \<noteq> JNull" and "auth \<noteq> JStr ''''"
  shows "fst (LiveChatBot lib (JObj kvs)) =
     (case (case map_of kvs ''intents'' of Some v \<Rightarrow> v | None \<Rightarrow> JObj DEFAULT_INTENTS) of
        JNull \<Rightarrow> Inl (ValueError ''configuration is null.'')
      | JObj ov \<Rightarrow>
          (if fst (build_intents lib
                     (case map_of kvs ''name'' of Some v \<Rightarrow> v | None \<Rightarrow> JStr ''live_chat'') (JObj ov)) = Inr None
           then (case Client_init lib None of
                   None \<Rightarrow> Inl ClientError
                 | Some c \<Rightarrow>
                     Inr \<lparr>name = (case map_of kvs ''name'' of Some v \<Rightarrow> v | None \<Rightarrow> JStr ''live_chat''),
                          display_name = (case map_of kvs ''display_name'' of Some v \<Rightarrow> v | None \<Rightarrow> JStr ''Live Chat''),
                          client = c\<rparr>)
           else Inl ClientError)
      | _ \<Rightarrow> Inl AttributeError)"
proof -
  let ?icfg = "case map_of kvs ''intents'' of Some v \<Rightarrow> v | None \<Rightarrow> JObj DEFAULT_INTENTS"
  let ?nm = "case map_of kvs ''name'' of Some v \<Rightarrow> v | None \<Rightarrow> JStr ''live_chat''"
  note unfold = LiveChatBot_authenticated [OF assms, of lib]
  show ?thesis
  proof (cases ?icfg)
    case JNull
    then show ?thesis
      unfolding unfold by (simp add: build_intents_None)
  next
    case (JObj ov)
    from build_intents_outcome [of lib ?nm ov] show ?thesis
      unfolding unfold JObj
      by (auto simp add: fst_and_then ret_def raise_def info_def split: option.splits)
  qed (simp_all add: unfold build_intents_not_dict)
qed

text \<open>What a successful construction returns.\<close>

lemma LiveChatBot_success:
  assumes ok: "fst (LiveChatBot lib configuration) = Inr b"
  shows "\<exists>kvs c. configuration = JObj kvs \<and> Client_init lib None = Some c
         \<and> b = \<lparr>name = (case map_of kvs ''name'' of Some v \<Rightarrow> v | None \<Rightarrow> JStr ''live_chat''),
                 display_name = (case map_of kvs ''display_name'' of Some v \<Rightarrow> v | None \<Rightarrow> JStr ''Live Chat''),
                 client = c\<rparr>"
proof -
  from ok have "configuration \<noteq> JNull"
    by (auto simp add: LiveChatBot_None)
  moreover have "\<exists>kvs. configuration = JObj kvs"
  proof (rule ccontr)
    assume "\<not> (\<exists>kvs. configuration = JObj kvs)"
    with calculation have "LiveChatBot lib configuration = (Inl AttributeError, [])"
      by (simp add: LiveChatBot_not_dict)
    with ok show False by simp
  qed
  ultimately obtain kvs where kvs: "configuration = JObj kvs" by blast
  have "map_of kvs ''auth'' \<notin> {None, Some JNull, Some (JStr '''')}"
  proof
    assume "map_of kvs ''auth'' \<in> {None, Some JNull, Some (JStr '''')}"
    from LiveChatBot_unauthenticated [OF this, of lib] ok kvs show False by simp
  qed
  then obtain auth where auth: "map_of kvs ''auth'' = Some auth" "auth \<noteq> JNull" "auth \<noteq> JStr ''''"
    by (cases "map_of kvs ''auth''") auto
  from ok kvs have "fst (LiveChatBot lib (JObj kvs)) = Inr b" by simp
  then have "\<exists>c. Client_init lib None = Some c
      \<and> b = \<lparr>name = (case map_of kvs ''name'' of Some v \<Rightarrow> v | None \<Rightarrow> JStr ''live_chat''),
              display_name = (case map_of kvs ''display_name'' of Some v \<Rightarrow> v | None \<Rightarrow> JStr ''Live Chat''),
              client = c\<rparr>"
    unfolding LiveChatBot_outcome [OF auth]
    by (auto split: json.splits option.splits if_splits)
  with kvs show ?thesis by blast
qed

section \<open>Claims about bot identity construction\<close>

text \<open>
  The program has no class named \<^verbatim>\<open>ConfigurationError\<close>: the configuration errors
  of \<^verbatim>\<open>LiveChatBot\<close> are the \<^verbatim>\<open>ValueError\<close>s its own \<^verbatim>\<open>raise\<close> statements raise.

  Claim C3 as it is stated says that construction fails with a configuration error
  exactly when the configuration is absent or its \<^verbatim>\<open>auth\<close> field is absent or empty.
  The configuration \<^verbatim>\<open>{"auth": "token", "intents": null}\<close> is present and has a
  non-empty \<^verbatim>\<open>auth\<close>, and construction fails with a \<^verbatim>\<open>ValueError\<close> all the same:
  \<^verbatim>\<open>build_intents\<close> guards its argument with \<^verbatim>\<open>if configuration == None: raise\<close>.
\<close>

theorem C3_counterexample:
  "LiveChatBot recording (JObj [(''auth'', JStr ''token''), (''intents'', JNull)]) =
     (Inl (ValueError ''configuration is null.''), [])"
  by code_simp

text \<open>
  Claim C3, amended.  Construction fails with a \<^verbatim>\<open>ValueError\<close> when the configuration
  is \<^verbatim>\<open>None\<close>, and when it is a dict whose \<^verbatim>\<open>auth\<close> is absent, \<^verbatim>\<open>None\<close> or the empty
  string; in each of these cases no instance is returned, nothing is logged and no
  call has reached the client library.  A \<^verbatim>\<open>ValueError\<close> is raised in exactly one more
  case: the configuration is a dict whose \<^verbatim>\<open>intents\<close> field is present and \<^verbatim>\<open>None\<close>.
  This holds for every behaviour of the client library.
\<close>

theorem C3_ValueError_exactly:
  "(configuration = JNull \<longrightarrow>
      LiveChatBot lib configuration = (Inl (ValueError ''configuration is null.''), []))
   \<and> (\<forall>kvs. configuration = JObj kvs \<and> map_of kvs ''auth'' \<in> {None, Some JNull, Some (JStr '''')} \<longrightarrow>
        LiveChatBot lib configuration =
          (Inl (ValueError ''No API authentication token was provided in the bot configuration.''), []))
   \<and> ((\<exists>msg. fst (LiveChatBot lib configuration) = Inl (ValueError msg)) \<longleftrightarrow>
        (configuration = JNull
         \<or> (\<exists>kvs. configuration = JObj kvs
               \<and> (map_of kvs ''auth'' \<in> {None, Some JNull, Some (JStr '''')}
                    \<or> map_of kvs ''intents'' = Some JNull))))"
proof (intro conjI allI impI)
  assume "configuration = JNull"
  then show "LiveChatBot lib configuration = (Inl (ValueError ''configuration is null.''), [])"
    by (simp add: LiveChatBot_None)
next
  fix kvs
  assume "configuration = JObj kvs \<and> map_of kvs ''auth'' \<in> {None, Some JNull, Some (JStr '''')}"
  then show "LiveChatBot lib configuration =
      (Inl (ValueError ''No API authentication token was provided in the bot configuration.''), [])"
    using LiveChatBot_unauthenticated [of kvs lib] by blast
next
  show "(\<exists>msg. fst (LiveChatBot lib configuration) = Inl (ValueError msg)) \<longleftrightarrow>
        (configuration = JNull
         \<or> (\<exists>kvs. configuration = JObj kvs
               \<and> (map_of kvs ''auth'' \<in> {None, Some JNull, Some (JStr '''')}
                    \<or> map_of kvs ''intents'' = Some JNull)))"
  proof (cases "configuration = JNull")
    case True
    then show ?thesis by (simp add: LiveChatBot_None)
  next
    case not_None: False
    show ?thesis
    proof (cases "\<exists>kvs. configuration = JObj kvs")
      case False
      with not_None show ?thesis by (simp add: LiveChatBot_not_dict)
    next
      case True
      then obtain kvs where kvs: "configuration = JObj kvs" by blast
      show ?thesis
      proof (cases "map_of kvs ''auth'' \<in> {None, Some JNull, Some (JStr '''')}")
        case True
        from LiveChatBot_unauthenticated [OF True, of lib] kvs True show ?thesis by auto
      next
        case False
        then obtain auth where auth: "map_of kvs ''auth'' = Some auth" "auth \<noteq> JNull" "auth \<noteq> JStr ''''"
          by (cases "map_of kvs ''auth''") auto
        show ?thesis
          unfolding kvs LiveChatBot_outcome [OF auth]
          using auth by (auto split: json.splits option.splits)
      qed
    qed
  qed
qed

text \<open>
  The amended claim at \<^verbatim>\<open>None\<close>, at \<^verbatim>\<open>{"name": "relay"}\<close>, at
  \<^verbatim>\<open>{"auth": "", "name": "relay"}\<close>, at \<^verbatim>\<open>{"auth": "token", "intents": null}\<close> and at
  \<^verbatim>\<open>{"auth": "token"}\<close>, which raises nothing.
\<close>

theorem C3_witness:
  "LiveChatBot recording JNull = (Inl (ValueError ''configuration is null.''), [])
   \<and> LiveChatBot recording (JObj [(''name'', JStr ''relay'')]) =
       (Inl (ValueError ''No API authentication token was provided in the bot configuration.''), [])
   \<and> LiveChatBot recording (JObj [(''auth'', JStr ''''), (''name'', JStr ''relay'')]) =
       (Inl (ValueError ''No API authentication token was provided in the bot configuration.''), [])
   \<and> (\<exists>msg. fst (LiveChatBot recording (JObj [(''auth'', JStr ''token''), (''intents'', JNull)])) =
         Inl (ValueError msg))
   \<and> \<not> (\<exists>msg. fst (LiveChatBot recording (JObj [(''auth'', JStr ''token'')])) = Inl (ValueError msg))"
  using C3_ValueError_exactly [of JNull recording]
    C3_ValueError_exactly [of "JObj [(''name'', JStr ''relay'')]" recording]
    C3_ValueError_exactly [of "JObj [(''auth'', JStr ''''), (''name'', JStr ''relay'')]" recording]
    C3_ValueError_exactly [of "JObj [(''auth'', JStr ''token''), (''intents'', JNull)]" recording]
    C3_ValueError_exactly [of "JObj [(''auth'', JStr ''token'')]" recording]
  by simp

text \<open>
  Claim C4 as it is stated says that construction succeeds for every configuration
  with a non-empty \<^verbatim>\<open>auth\<close>.  The configuration
  \<^verbatim>\<open>{"auth": "token", "display_name": "Relay", "intents": null}\<close> has one, and
  construction fails on the guard of \<^verbatim>\<open>build_intents\<close>.
\<close>

theorem C4_counterexample:
  "map_of [(''auth'', JStr ''token''), (''display_name'', JStr ''Relay''), (''intents'', JNull)] ''auth''
     = Some (JStr ''token'')
   \<and> fst (LiveChatBot recording
        (JObj [(''auth'', JStr ''token''), (''display_name'', JStr ''Relay''), (''intents'', JNull)])) =
       Inl (ValueError ''configuration is null.'')"
  by code_simp

text \<open>
  Claim C4, amended.  For every configuration dict with an \<^verbatim>\<open>auth\<close> that is neither
  \<^verbatim>\<open>None\<close> nor the empty string, whose \<^verbatim>\<open>intents\<close> field is absent or a dict, construction
  succeeds whether or not \<^verbatim>\<open>name\<close> and \<^verbatim>\<open>display_name\<close> are present, provided the client
  library accepts the assignment of each resolved flag value and the construction of
  the client with \<^verbatim>\<open>intents = None\<close>.  The instance has the configured \<^verbatim>\<open>name\<close>, or
  \<^verbatim>\<open>"live_chat"\<close> when it is absent, and the configured \<^verbatim>\<open>display_name\<close>, or
  \<^verbatim>\<open>"Live Chat"\<close> when it is absent.  The log holds the line of each resolved flag and
  the line of the created instance, and nothing about a default that was used.
\<close>

theorem C4_construction_defaults:
  assumes "map_of kvs ''auth'' = Some auth" and "auth \<noteq> JNull" and "auth \<noteq> JStr ''''"
    and "map_of kvs ''intents'' = None \<and> ov = DEFAULT_INTENTS
         \<or> map_of kvs ''intents'' = Some (JObj ov)"
    and "\<forall>i. \<forall>(n, v) \<in> set (resolve ov). set_flag lib i n v \<noteq> None"
    and "Client_init lib None = Some c"
  shows "LiveChatBot lib (JObj kvs) =
     (let self_name = (case map_of kvs ''name'' of Some v \<Rightarrow> v | None \<Rightarrow> JStr ''live_chat'');
          self_display_name =
            (case map_of kvs ''display_name'' of Some v \<Rightarrow> v | None \<Rightarrow> JStr ''Live Chat'')
      in (Inr \<lparr>name = self_name, display_name = self_display_name, client = c\<rparr>,
          map (\<lambda>(n, v). IntentLog self_name n v) (resolve ov) @ [InstanceCreated self_name]))"
proof -
  from assms(4) have icfg:
    "(case map_of kvs ''intents'' of Some v \<Rightarrow> v | None \<Rightarrow> JObj DEFAULT_INTENTS) = JObj ov"
    by auto
  show ?thesis
    unfolding LiveChatBot_authenticated [OF assms(1-3)] icfg build_intents_accepted [OF assms(5)]
    using assms(6) by (simp add: Let_def info_def ret_def)
qed

text \<open>
  The amended claim at \<^verbatim>\<open>{"auth": "token"}\<close>, where both names are defaulted, and at a
  configuration that gives both names and overrides one flag.
\<close>

theorem C4_witness:
  "LiveChatBot recording (JObj [(''auth'', JStr ''token'')]) =
     (Inr \<lparr>name = JStr ''live_chat'', display_name = JStr ''Live Chat'', client = None\<rparr>,
      map (\<lambda>(n, v). IntentLog (JStr ''live_chat'') n v) (resolve DEFAULT_INTENTS)
        @ [InstanceCreated (JStr ''live_chat'')])
   \<and> LiveChatBot recording
       (JObj [(''auth'', JStr ''token''), (''name'', JStr ''relay''), (''display_name'', JStr ''Relay''),
              (''intents'', JObj [(''members'', JBool False)])]) =
     (Inr \<lparr>name = JStr ''relay'', display_name = JStr ''Relay'', client = None\<rparr>,
      map (\<lambda>(n, v). IntentLog (JStr ''relay'') n v) (resolve [(''members'', JBool False)])
        @ [InstanceCreated (JStr ''relay'')])"
proof -
  have accept: "\<forall>i. \<forall>(n, v) \<in> set (resolve ov). set_flag recording i n v \<noteq> None" for ov
    by (simp add: recording_def split: prod.splits)
  have init: "Client_init recording None = Some None"
    by (simp add: recording_def)
  show ?thesis
    using C4_construction_defaults [of "[(''auth'', JStr ''token'')]" "JStr ''token''"
        DEFAULT_INTENTS recording None, OF _ _ _ _ accept init]
      C4_construction_defaults [of "[(''auth'', JStr ''token''), (''name'', JStr ''relay''),
          (''display_name'', JStr ''Relay''), (''intents'', JObj [(''members'', JBool False)])]"
        "JStr ''token''" "[(''members'', JBool False)]" recording None, OF _ _ _ _ accept init]
    by (simp add: Let_def)
qed

text \<open>
  Claim C10.  On every configuration on which construction succeeds, the \<^verbatim>\<open>auth\<close>
  value is only compared with \<^verbatim>\<open>None\<close> and the empty string and then discarded.
  First, the instance is made of the configured or defaulted \<^verbatim>\<open>name\<close>, the configured
  or defaulted \<^verbatim>\<open>display_name\<close>, and the client the library builds from
  \<^verbatim>\<open>intents = None\<close>, an argument that carries nothing of the configuration: the
  instance has no other attribute of the program's own, and the library is handed no
  token.  Second, two configurations that differ only in their \<^verbatim>\<open>auth\<close> values, both
  accepted, give the same outcome, the same instance and the same log, whatever the
  client library does.
\<close>

theorem C10_auth_discarded:
  "(LiveChatBot lib configuration = (Inr b, logged) \<longrightarrow>
      (\<exists>kvs c. configuration = JObj kvs \<and> Client_init lib None = Some c
         \<and> b = \<lparr>name = (case map_of kvs ''name'' of Some v \<Rightarrow> v | None \<Rightarrow> JStr ''live_chat''),
                 display_name = (case map_of kvs ''display_name'' of Some v \<Rightarrow> v | None \<Rightarrow> JStr ''Live Chat''),
                 client = c\<rparr>))
   \<and> ((\<forall>k. k \<noteq> ''auth'' \<longrightarrow> map_of kvs k = map_of kvs' k)
        \<and> map_of kvs ''auth'' \<notin> {None, Some JNull, Some (JStr '''')}
        \<and> map_of kvs' ''auth'' \<notin> {None, Some JNull, Some (JStr '''')}
      \<longrightarrow> LiveChatBot lib (JObj kvs) = LiveChatBot lib (JObj kvs'))"
proof (intro conjI impI)
  assume "LiveChatBot lib configuration = (Inr b, logged)"
  then have "fst (LiveChatBot lib configuration) = Inr b" by simp
  from LiveChatBot_success [OF this]
  show "\<exists>kvs c. configuration = JObj kvs \<and> Client_init lib None = Some c
         \<and> b = \<lparr>name = (case map_of kvs ''name'' of Some v \<Rightarrow> v | None \<Rightarrow> JStr ''live_chat''),
                 display_name = (case map_of kvs ''display_name'' of Some v \<Rightarrow> v | None \<Rightarrow> JStr ''Live Chat''),
                 client = c\<rparr>" .
next
  assume a: "(\<forall>k. k \<noteq> ''auth'' \<longrightarrow> map_of kvs k = map_of kvs' k)
        \<and> map_of kvs ''auth'' \<notin> {None, Some JNull, Some (JStr '''')}
        \<and> map_of kvs' ''auth'' \<notin> {None, Some JNull, Some (JStr '''')}"
  then obtain auth where auth: "map_of kvs ''auth'' = Some auth" "auth \<noteq> JNull" "auth \<noteq> JStr ''''"
    by (cases "map_of kvs ''auth''") auto
  from a obtain auth' where auth': "map_of kvs' ''auth'' = Some auth'" "auth' \<noteq> JNull" "auth' \<noteq> JStr ''''"
    by (cases "map_of kvs' ''auth''") auto
  from a have same: "map_of kvs ''name'' = map_of kvs' ''name''"
    "map_of kvs ''display_name'' = map_of kvs' ''display_name''"
    "map_of kvs ''intents'' = map_of kvs' ''intents''"
    by simp_all
  show "LiveChatBot lib (JObj kvs) = LiveChatBot lib (JObj kvs')"
    unfolding LiveChatBot_authenticated [OF auth] LiveChatBot_authenticated [OF auth'] same ..
qed

text \<open>
  Claim C10 at two configurations that differ in the token only: the outcomes are
  equal, and the instance holds the name, the display name and a client built from
  \<^verbatim>\<open>intents = None\<close>.
\<close>

theorem C10_witness:
  "LiveChatBot recording (JObj [(''auth'', JStr ''token-one''), (''name'', JStr ''relay'')]) =
     LiveChatBot recording (JObj [(''auth'', JStr ''token-two''), (''name'', JStr ''relay'')])
   \<and> LiveChatBot recording (JObj [(''auth'', JStr ''token-one''), (''name'', JStr ''relay'')]) =
       (Inr \<lparr>name = JStr ''relay'', display_name = JStr ''Live Chat'', client = None\<rparr>,
        snd (LiveChatBot recording (JObj [(''auth'', JStr ''token-one''), (''name'', JStr ''relay'')])))
   \<and> (\<exists>kvs c. JObj [(''auth'', JStr ''token-one''), (''name'', JStr ''relay'')] = JObj kvs
         \<and> Client_init recording None = Some c
         \<and> \<lparr>name = JStr ''relay'', display_name = JStr ''Live Chat'', client = None\<rparr> =
             \<lparr>name = (case map_of kvs ''name'' of Some v \<Rightarrow> v | None \<Rightarrow> JStr ''live_chat''),
              display_name = (case map_of kvs ''display_name'' of Some v \<Rightarrow> v | None \<Rightarrow> JStr ''Live Chat''),
              client = c\<rparr>)"
proof -
  have "fst (LiveChatBot recording (JObj [(''auth'', JStr ''token-one''), (''name'', JStr ''relay'')])) =
       Inr \<lparr>name = JStr ''relay'', display_name = JStr ''Live Chat'', client = None\<rparr>"
    by code_simp
  then have built:
    "LiveChatBot recording (JObj [(''auth'', JStr ''token-one''), (''name'', JStr ''relay'')]) =
       (Inr \<lparr>name = JStr ''relay'', display_name = JStr ''Live Chat'', client = None\<rparr>,
        snd (LiveChatBot recording (JObj [(''auth'', JStr ''token-one''), (''name'', JStr ''relay'')])))"
    by (metis prod.collapse)
  from C10_auth_discarded [of recording
      "JObj [(''auth'', JStr ''token-one''), (''name'', JStr ''relay'')]"
      "\<lparr>name = JStr ''relay'', display_name = JStr ''Live Chat'', client = None\<rparr>"
      "snd (LiveChatBot recording (JObj [(''auth'', JStr ''token-one''), (''name'', JStr ''relay'')]))"
      "[(''auth'', JStr ''token-one''), (''name'', JStr ''relay'')]"
      "[(''auth'', JStr ''token-two''), (''name'', JStr ''relay'')]"]
    built
  show ?thesis by simp
qed

section \<open>Names outside the recognized set\<close>

lemma map_of_filter_keys:
  "map_of (filter (\<lambda>(k, v). P k) kvs) k = (if P k then map_of kvs k else None)"
  by (induction kvs) auto

lemma get_intent_recognized_only:
  "get_intent self_name (JObj (filter (\<lambda>(k, v). k \<in> fst ` set DEFAULT_INTENTS) overrides)) (Some n) =
   get_intent self_name (JObj overrides) (Some n)"
proof (cases "map_of DEFAULT_INTENTS n")
  case None
  then show ?thesis by (simp add: get_intent_JObj)
next
  case (Some d)
  then have "n \<in> fst ` set DEFAULT_INTENTS"
    by (metis domI dom_map_of_conv_image_fst)
  with Some show ?thesis
    by (simp add: get_intent_JObj map_of_filter_keys)
qed

lemma assign_intents_recognized_only:
  "assign_intents lib self_name
     (JObj (filter (\<lambda>(k, v). k \<in> fst ` set DEFAULT_INTENTS) overrides)) attrs i =
   assign_intents lib self_name (JObj overrides) attrs i"
proof (induction attrs arbitrary: i)
  case Nil
  show ?case by simp
next
  case (Cons a attrs)
  have "assign_intents lib self_name
          (JObj (filter (\<lambda>(k, v). k \<in> fst ` set DEFAULT_INTENTS) overrides)) attrs =
        assign_intents lib self_name (JObj overrides) attrs"
    by (rule ext) (rule Cons.IH)
  then show ?case
    by (simp add: get_intent_recognized_only)
qed

lemma snd_and_then:
  "snd (and_then m f) =
     (case fst m of Inl e \<Rightarrow> snd m | Inr x \<Rightarrow> snd m @ snd (f x))"
  by (cases m) (simp add: and_then_def split: sum.splits prod.splits)

lemma assign_intents_log:
  assumes "e \<in> set (snd (assign_intents lib self_name (JObj overrides) attrs i))"
  shows "\<exists>n v. e = IntentLog self_name n v \<and> n \<in> set attrs"
  using assms
proof (induction attrs arbitrary: i)
  case Nil
  then show ?case by (simp add: ret_def)
next
  case (Cons a attrs)
  show ?case
  proof (cases "map_of DEFAULT_INTENTS a")
    case None
    with Cons.prems show ?thesis by (simp add: get_intent_JObj)
  next
    case (Some d)
    let ?v = "case map_of overrides a of Some v \<Rightarrow> v | None \<Rightarrow> d"
    show ?thesis
    proof (cases "set_flag lib i a ?v")
      case None
      with Some Cons.prems show ?thesis
        by (auto simp add: get_intent_JObj raise_def)
    next
      case (Some i1)
      with \<open>map_of DEFAULT_INTENTS a = Some d\<close> Cons.prems
      have "e = IntentLog self_name a ?v
          \<or> e \<in> set (snd (assign_intents lib self_name (JObj overrides) attrs i1))"
        by (auto simp add: get_intent_JObj)
      with Cons.IH [of i1] show ?thesis by auto
    qed
  qed
qed

lemma assign_intents_recording:
  assumes "\<forall>(n, d) \<in> set tbl. map_of DEFAULT_INTENTS n = Some d"
  shows "fst (assign_intents recording self_name (JObj ov) (map fst tbl) i) =
           Inr (i @ map (\<lambda>(n, d). (n, case map_of ov n of Some v \<Rightarrow> v | None \<Rightarrow> d)) tbl)"
  using assms
proof (induction tbl arbitrary: i)
  case Nil
  then show ?case by (simp add: ret_def)
next
  case (Cons p tbl)
  obtain n d where p: "p = (n, d)" by (cases p)
  from Cons.prems p have look: "map_of DEFAULT_INTENTS n = Some d" by simp
  have flag: "set_flag recording i n v = Some (i @ [(n, v)])" for v
    by (simp add: recording_def)
  from Cons.prems have "\<forall>(n, d) \<in> set tbl. map_of DEFAULT_INTENTS n = Some d" by simp
  from Cons.IH [OF this] p look flag show ?case
    by (simp add: get_intent_JObj)
qed

text \<open>
  Claim C5 as it is stated says that an override name outside the recognized set either
  makes intent resolution fail or is logged and ignored, never accepted without a
  diagnostic.  \<^verbatim>\<open>build_intents\<close> reads the twenty recognized names only and never
  looks at the other keys of the mapping.  With the overrides \<^verbatim>\<open>{"verbose": true}\<close> it
  ends normally, and its log holds the twenty lines of the recognized flags at their
  defaults and no line about \<^verbatim>\<open>verbose\<close>.
\<close>

theorem C5_counterexample:
  "''verbose'' \<notin> fst ` set DEFAULT_INTENTS
   \<and> build_intents recording (JStr ''live_chat'') (JObj [(''verbose'', JBool True)]) =
       (Inr None, map (\<lambda>(n, v). IntentLog (JStr ''live_chat'') n v) DEFAULT_INTENTS)"
  by code_simp

text \<open>
  Claim C5, amended.  For every overrides mapping, the names outside the recognized set
  are ignored without an error and without a diagnostic: intent resolution gives the
  same outcome and the same log as on the mapping with these entries removed, every
  line of its log is the line of a recognized flag, it ends normally or with an
  exception of the client library (never one of the program's own), and the object it
  assigns to holds the recognized flags and no other: no flag is made from an
  unrecognized name.
\<close>

theorem C5_unrecognized_names_ignored:
  "build_intents lib self_name (JObj overrides) =
     build_intents lib self_name
       (JObj (filter (\<lambda>(k, v). k \<in> fst ` set DEFAULT_INTENTS) overrides))
   \<and> (\<forall>e \<in> set (snd (build_intents lib self_name (JObj overrides))).
         \<exists>n v. e = IntentLog self_name n v \<and> n \<in> fst ` set DEFAULT_INTENTS)
   \<and> fst (build_intents lib self_name (JObj overrides)) \<in> {Inr None, Inl ClientError}
   \<and> fst (assign_intents recording self_name (JObj overrides) INTENT_ATTRIBUTES (Intents recording)) =
       Inr (resolve overrides)"
proof (intro conjI ballI)
  show "build_intents lib self_name (JObj overrides) =
     build_intents lib self_name
       (JObj (filter (\<lambda>(k, v). k \<in> fst ` set DEFAULT_INTENTS) overrides))"
    by (simp add: build_intents_def assign_intents_recognized_only)
next
  fix e
  assume "e \<in> set (snd (build_intents lib self_name (JObj overrides)))"
  then have "e \<in> set (snd (assign_intents lib self_name (JObj overrides) INTENT_ATTRIBUTES (Intents lib)))"
    by (auto simp add: build_intents_def snd_and_then ret_def split: sum.splits)
  from assign_intents_log [OF this]
  show "\<exists>n v. e = IntentLog self_name n v \<and> n \<in> fst ` set DEFAULT_INTENTS"
    by (simp add: attributes_are_keys [symmetric])
next
  from build_intents_outcome [of lib self_name overrides]
  show "fst (build_intents lib self_name (JObj overrides)) \<in> {Inr None, Inl ClientError}"
    by auto
next
  have "\<forall>(n, d) \<in> set DEFAULT_INTENTS. map_of DEFAULT_INTENTS n = Some d"
    using default_table_lookup by blast
  from assign_intents_recording [OF this, of self_name overrides "[]"]
  show "fst (assign_intents recording self_name (JObj overrides) INTENT_ATTRIBUTES (Intents recording)) =
       Inr (resolve overrides)"
    by (simp add: attributes_are_keys resolve_def recording_def)
qed

text \<open>
  The amended claim at the overrides \<^verbatim>\<open>{"verbose": true, "members": false}\<close>.
\<close>

theorem C5_witness:
  "build_intents recording (JStr ''live_chat'') (JObj [(''verbose'', JBool True), (''members'', JBool False)]) =
     build_intents recording (JStr ''live_chat'') (JObj [(''members'', JBool False)])
   \<and> IntentLog (JStr ''live_chat'') ''members'' (JBool False)
       \<in> set (snd (build_intents recording (JStr ''live_chat'')
                    (JObj [(''verbose'', JBool True), (''members'', JBool False)])))
   \<and> ''members'' \<in> fst ` set DEFAULT_INTENTS"
proof -
  have f: "filter (\<lambda>(k, v). k \<in> fst ` set DEFAULT_INTENTS) [(''verbose'', JBool True), (''members'', JBool False)]
      = [(''members'', JBool False)]"
    by code_simp
  have m: "IntentLog (JStr ''live_chat'') ''members'' (JBool False)
       \<in> set (snd (build_intents recording (JStr ''live_chat'')
                    (JObj [(''verbose'', JBool True), (''members'', JBool False)])))"
    by code_simp
  have k: "''members'' \<in> fst ` set DEFAULT_INTENTS"
    by code_simp
  note C5_unrecognized_names_ignored [of recording "JStr ''live_chat''"
      "[(''verbose'', JBool True), (''members'', JBool False)]", THEN conjunct1, unfolded f]
  with m k show ?thesis by blast
qed

section \<open>Loading the bots array\<close>

lemma create_bots_all_valid:
  assumes "\<forall>e \<in> set es. \<exists>b. fst (LiveChatBot lib e) = Inr b"
  shows "\<exists>bs. fst (create_bots lib es acc) = Inr (acc @ bs)
           \<and> map Inr bs = map (\<lambda>e. fst (LiveChatBot lib e)) es"
  using assms
proof (induction es arbitrary: acc)
  case Nil
  then show ?case by (simp add: ret_def)
next
  case (Cons e es)
  then obtain b where b: "fst (LiveChatBot lib e) = Inr b" by auto
  from Cons.prems have "\<forall>e \<in> set es. \<exists>b. fst (LiveChatBot lib e) = Inr b" by simp
  from Cons.IH [OF this, of "acc @ [b]"] obtain bs where
    "fst (create_bots lib es (acc @ [b])) = Inr ((acc @ [b]) @ bs)"
    "map Inr bs = map (\<lambda>e. fst (LiveChatBot lib e)) es"
    by blast
  with b have "fst (create_bots lib (e # es) acc) = Inr (acc @ (b # bs))
      \<and> map Inr (b # bs) = map (\<lambda>e. fst (LiveChatBot lib e)) (e # es)"
    by (simp add: fst_and_then)
  then show ?case by blast
qed

lemma create_bots_stops:
  assumes "\<forall>e \<in> set valid. \<exists>b. fst (LiveChatBot lib e) = Inr b"
    and "fst (LiveChatBot lib bad) = Inl err"
  shows "create_bots lib (valid @ bad # rest) acc =
           (Inl err, concat (map (\<lambda>e. snd (LiveChatBot lib e)) valid) @ snd (LiveChatBot lib bad))"
  using assms
proof (induction valid arbitrary: acc)
  case Nil
  from Nil.prems(2) have "LiveChatBot lib bad = (Inl err, snd (LiveChatBot lib bad))"
    by (metis prod.collapse)
  then have "and_then (LiveChatBot lib bad) (\<lambda>b. create_bots lib rest (acc @ [b])) =
      (Inl err, snd (LiveChatBot lib bad))"
    by (metis and_then_pair(1))
  then show ?case by simp
next
  case (Cons e valid)
  then obtain b where "fst (LiveChatBot lib e) = Inr b" by auto
  then have e: "LiveChatBot lib e = (Inr b, snd (LiveChatBot lib e))"
    by (metis prod.collapse)
  from Cons.prems have "\<forall>e \<in> set valid. \<exists>b. fst (LiveChatBot lib e) = Inr b" by simp
  from Cons.IH [OF this Cons.prems(2), of "acc @ [b]"]
  have next_entries: "create_bots lib (valid @ bad # rest) (acc @ [b]) =
      (Inl err, concat (map (\<lambda>e. snd (LiveChatBot lib e)) valid) @ snd (LiveChatBot lib bad))" .
  have "and_then (LiveChatBot lib e) (\<lambda>b. create_bots lib (valid @ bad # rest) (acc @ [b])) =
      (Inl err, snd (LiveChatBot lib e)
         @ concat (map (\<lambda>e. snd (LiveChatBot lib e)) valid) @ snd (LiveChatBot lib bad))"
    by (subst e) (simp add: next_entries)
  then show ?case by simp
qed

lemma DiscordBotManager_bots_loop:
  assumes "fs path = Readable (Some (JObj items))"
    and "map_of items ''bots'' = Some (JArr entries)"
  shows "DiscordBotManager lib fs (Some path) =
     and_then (create_bots lib entries []) (\<lambda>self_bots.
     and_then (info (BotsCreated (length self_bots))) (\<lambda>_.
     ret \<lparr>listen_address = (case map_of items ''address'' of Some v \<Rightarrow> v | None \<Rightarrow> JStr ''0.0.0.0''),
          listen_port = (case map_of items ''port'' of Some v \<Rightarrow> v | None \<Rightarrow> JInt 8080),
          bots = self_bots\<rparr>))"
proof (cases entries)
  case Nil
  with assms show ?thesis
    by (simp add: DiscordBotManager_def isfile_def access_R_OK_def json_load_def getattr_get_def
        py_len_def py_iter_def Let_def)
next
  case (Cons e es)
  with assms show ?thesis
    by (simp add: DiscordBotManager_def isfile_def access_R_OK_def json_load_def getattr_get_def
        py_len_def py_iter_def Let_def)
qed

lemma DiscordBotManager_bots_array:
  assumes "fs path = Readable (Some (JObj items))"
    and "map_of items ''bots'' = Some (JArr entries)"
  shows "fst (DiscordBotManager lib fs (Some path)) =
     (case fst (create_bots lib entries []) of
        Inl e \<Rightarrow> Inl e
      | Inr self_bots \<Rightarrow>
          Inr \<lparr>listen_address = (case map_of items ''address'' of Some v \<Rightarrow> v | None \<Rightarrow> JStr ''0.0.0.0''),
               listen_port = (case map_of items ''port'' of Some v \<Rightarrow> v | None \<Rightarrow> JInt 8080),
               bots = self_bots\<rparr>)"
proof (cases entries)
  case Nil
  with assms show ?thesis
    by (simp add: DiscordBotManager_def isfile_def access_R_OK_def json_load_def getattr_get_def
        py_len_def py_iter_def Let_def fst_and_then ret_def info_def)
next
  case (Cons e es)
  with assms show ?thesis
    by (simp add: DiscordBotManager_def isfile_def access_R_OK_def json_load_def getattr_get_def
        py_len_def py_iter_def Let_def fst_and_then ret_def info_def split: sum.splits)
qed

text \<open>
  Claim C6 as it is stated says that a bots array with an invalid entry makes the load
  fail with one aggregate error that lists every invalid entry.  The loop of
  \<^verbatim>\<open>DiscordBotManager.__init__\<close> constructs the entries one after the other with no
  \<^verbatim>\<open>try\<close>, so the first exception ends the load.  With the bots array
  \<^verbatim>\<open>[{"name": "first"}, null]\<close> both entries are invalid; the load fails with the
  error of the first (no token), and the error of the second
  (\<^verbatim>\<open>configuration is null.\<close>) appears nowhere.
\<close>

theorem C6_counterexample:
  "fst (DiscordBotManager recording
         (\<lambda>p. if p = ''configuration.json''
              then Readable (Some (JObj [(''bots'', JArr [JObj [(''name'', JStr ''first'')], JNull])]))
              else NoFile)
         (Some ''configuration.json'')) =
     Inl (ValueError ''No API authentication token was provided in the bot configuration.'')
   \<and> fst (LiveChatBot recording (JObj [(''name'', JStr ''first'')])) =
       Inl (ValueError ''No API authentication token was provided in the bot configuration.'')
   \<and> fst (LiveChatBot recording JNull) = Inl (ValueError ''configuration is null.'')"
  by code_simp

text \<open>
  Claim C6, amended.  For every configuration whose bots array contains an invalid
  entry, the load fails with the error that constructing the first invalid entry
  raises, and with nothing else.  The whole result is fixed by the entries up to and
  including that one: the log holds the lines of the valid entries before it and of
  the failed construction, the loop gives the same result as on the array cut after
  the invalid entry, and so does the load of every configuration whose bots array is
  that cut array.  The entries after the first invalid one are not constructed, and
  no aggregate is built.
\<close>

theorem C6_first_invalid_entry_only:
  assumes "fs path = Readable (Some (JObj items))"
    and "map_of items ''bots'' = Some (JArr (valid @ bad # rest))"
    and "\<forall>e \<in> set valid. \<exists>b. fst (LiveChatBot lib e) = Inr b"
    and "fst (LiveChatBot lib bad) = Inl err"
  shows "DiscordBotManager lib fs (Some path) =
           (Inl err, concat (map (\<lambda>e. snd (LiveChatBot lib e)) valid) @ snd (LiveChatBot lib bad))
     \<and> create_bots lib (valid @ bad # rest) [] = create_bots lib (valid @ [bad]) []
     \<and> (\<forall>fs' path' items'.
           fs' path' = Readable (Some (JObj items'))
           \<and> map_of items' ''bots'' = Some (JArr (valid @ [bad]))
           \<longrightarrow> DiscordBotManager lib fs' (Some path') = DiscordBotManager lib fs (Some path))"
proof (intro conjI allI impI)
  show full: "DiscordBotManager lib fs (Some path) =
      (Inl err, concat (map (\<lambda>e. snd (LiveChatBot lib e)) valid) @ snd (LiveChatBot lib bad))"
    unfolding DiscordBotManager_bots_loop [where fs = fs and path = path, OF assms(1,2)]
      create_bots_stops [OF assms(3,4)]
    by simp
  show "create_bots lib (valid @ bad # rest) [] = create_bots lib (valid @ [bad]) []"
    unfolding create_bots_stops [OF assms(3,4), of rest "[]"]
      create_bots_stops [OF assms(3,4), of "[]" "[]"] ..
  fix fs' :: filesystem and path' items'
  assume cut: "fs' path' = Readable (Some (JObj items'))
           \<and> map_of items' ''bots'' = Some (JArr (valid @ [bad]))"
  then have "DiscordBotManager lib fs' (Some path') =
      (Inl err, concat (map (\<lambda>e. snd (LiveChatBot lib e)) valid) @ snd (LiveChatBot lib bad))"
    unfolding DiscordBotManager_bots_loop [where fs = fs' and path = path', OF conjunct1 [OF cut] conjunct2 [OF cut]]
      create_bots_stops [OF assms(3,4), of "[]" "[]"]
    by simp
  with full show "DiscordBotManager lib fs' (Some path') = DiscordBotManager lib fs (Some path)"
    by simp
qed

text \<open>
  The amended claim at the bots array
  \<^verbatim>\<open>[{"auth": "token"}, {"name": "second"}, null]\<close>: one valid entry, then two
  invalid ones.  The log holds the lines of the first entry only, and the load of the
  array without its last entry gives the same result.
\<close>

theorem C6_witness:
  "DiscordBotManager recording
     (\<lambda>p. if p = ''configuration.json''
          then Readable (Some (JObj [(''bots'',
                 JArr [JObj [(''auth'', JStr ''token'')], JObj [(''name'', JStr ''second'')], JNull])]))
          else NoFile)
     (Some ''configuration.json'') =
     (Inl (ValueError ''No API authentication token was provided in the bot configuration.''),
      map (\<lambda>(n, v). IntentLog (JStr ''live_chat'') n v) DEFAULT_INTENTS
        @ [InstanceCreated (JStr ''live_chat'')])
   \<and> DiscordBotManager recording
       (\<lambda>p. if p = ''configuration.json''
            then Readable (Some (JObj [(''bots'',
                   JArr [JObj [(''auth'', JStr ''token'')], JObj [(''name'', JStr ''second'')]])]))
            else NoFile)
       (Some ''configuration.json'') =
     DiscordBotManager recording
       (\<lambda>p. if p = ''configuration.json''
            then Readable (Some (JObj [(''bots'',
                   JArr [JObj [(''auth'', JStr ''token'')], JObj [(''name'', JStr ''second'')], JNull])]))
            else NoFile)
       (Some ''configuration.json'')"
proof -
  let ?good = "JObj [(''auth'', JStr ''token'')]"
  let ?bad = "JObj [(''name'', JStr ''second'')]"
  let ?fs = "\<lambda>p. if p = ''configuration.json''
              then Readable (Some (JObj [(''bots'', JArr [?good, ?bad, JNull])]))
              else NoFile"
  let ?cut = "\<lambda>p. if p = ''configuration.json''
              then Readable (Some (JObj [(''bots'', JArr [?good, ?bad])]))
              else NoFile"
  have 1: "?fs ''configuration.json'' =
      Readable (Some (JObj [(''bots'', JArr ([?good] @ ?bad # [JNull]))]))"
    by simp
  have 2: "map_of [(''bots'', JArr ([?good] @ ?bad # [JNull]))] ''bots''
       = Some (JArr ([?good] @ ?bad # [JNull]))"
    by simp
  have good: "LiveChatBot recording ?good =
      (Inr \<lparr>name = JStr ''live_chat'', display_name = JStr ''Live Chat'', client = None\<rparr>,
       map (\<lambda>(n, v). IntentLog (JStr ''live_chat'') n v) DEFAULT_INTENTS
         @ [InstanceCreated (JStr ''live_chat'')])"
    by code_simp
  then have 3: "\<forall>e \<in> set [?good]. \<exists>b. fst (LiveChatBot recording e) = Inr b"
    by simp
  have bad: "LiveChatBot recording ?bad =
      (Inl (ValueError ''No API authentication token was provided in the bot configuration.''), [])"
    by code_simp
  then have 4: "fst (LiveChatBot recording ?bad) =
      Inl (ValueError ''No API authentication token was provided in the bot configuration.'')"
    by simp
  note c = C6_first_invalid_entry_only [where fs = ?fs and path = "''configuration.json''", OF 1 2 3 4]
  from c [THEN conjunct1] good bad
  have a: "DiscordBotManager recording ?fs (Some ''configuration.json'') =
     (Inl (ValueError ''No API authentication token was provided in the bot configuration.''),
      map (\<lambda>(n, v). IntentLog (JStr ''live_chat'') n v) DEFAULT_INTENTS
        @ [InstanceCreated (JStr ''live_chat'')])"
    by simp
  have b: "DiscordBotManager recording ?cut (Some ''configuration.json'') =
      DiscordBotManager recording ?fs (Some ''configuration.json'')"
    by (rule c [THEN conjunct2, THEN conjunct2, rule_format,
          where fs' = ?cut and items' = "[(''bots'', JArr [?good, ?bad])]"]) simp
  from a b show ?thesis by blast
qed

text \<open>
  Claim C7 as it is stated says that two bot entries with the same name make the load
  fail.  The program keeps the bots in a list and compares no names.  With the bots
  array \<^verbatim>\<open>[{"auth": "token-one"}, {"auth": "token-two"}]\<close> both entries omit
  \<^verbatim>\<open>name\<close>, the load succeeds, and the manager holds two bots named
  \<^verbatim>\<open>live_chat\<close>.
\<close>

theorem C7_counterexample:
  "fst (DiscordBotManager recording
         (\<lambda>p. if p = ''configuration.json''
              then Readable (Some (JObj [(''bots'',
                     JArr [JObj [(''auth'', JStr ''token-one'')], JObj [(''auth'', JStr ''token-two'')]])]))
              else NoFile)
         (Some ''configuration.json'')) =
     Inr \<lparr>listen_address = JStr ''0.0.0.0'', listen_port = JInt 8080,
          bots = [\<lparr>name = JStr ''live_chat'', display_name = JStr ''Live Chat'', client = None\<rparr>,
                  \<lparr>name = JStr ''live_chat'', display_name = JStr ''Live Chat'', client = None\<rparr>]\<rparr>"
  by code_simp

text \<open>
  Claim C7, amended.  For every configuration whose bot entries can each be
  constructed, the load succeeds whether or not two entries share a name: the manager
  holds one bot per entry, in the order of the array, each bot is the one its entry
  constructs, and its name is the entry's \<^verbatim>\<open>name\<close> or \<^verbatim>\<open>"live_chat"\<close> when the entry
  has none.  Names are not compared, so duplicates are kept.
\<close>

theorem C7_duplicate_names_accepted:
  assumes "fs path = Readable (Some (JObj items))"
    and "map_of items ''bots'' = Some (JArr entries)"
    and "\<forall>e \<in> set entries. \<exists>b. fst (LiveChatBot lib e) = Inr b"
  shows "\<exists>m. fst (DiscordBotManager lib fs (Some path)) = Inr m
     \<and> length (bots m) = length entries
     \<and> (\<forall>i < length entries.
          fst (LiveChatBot lib (entries ! i)) = Inr (bots m ! i)
          \<and> (\<exists>kvs. entries ! i = JObj kvs
                \<and> name (bots m ! i) =
                    (case map_of kvs ''name'' of Some v \<Rightarrow> v | None \<Rightarrow> JStr ''live_chat'')))"
proof -
  from create_bots_all_valid [OF assms(3), of "[]"] obtain bs where
    bs: "fst (create_bots lib entries []) = Inr bs"
    and each: "map Inr bs = map (\<lambda>e. fst (LiveChatBot lib e)) entries"
    by auto
  let ?m = "\<lparr>listen_address = (case map_of items ''address'' of Some v \<Rightarrow> v | None \<Rightarrow> JStr ''0.0.0.0''),
             listen_port = (case map_of items ''port'' of Some v \<Rightarrow> v | None \<Rightarrow> JInt 8080),
             bots = bs\<rparr>"
  have m: "fst (DiscordBotManager lib fs (Some path)) = Inr ?m"
    unfolding DiscordBotManager_bots_array [where fs = fs and path = path, OF assms(1,2)] bs by simp
  from each have len: "length bs = length entries"
    by (metis length_map)
  have "fst (LiveChatBot lib (entries ! i)) = Inr (bs ! i)
        \<and> (\<exists>kvs. entries ! i = JObj kvs
              \<and> name (bs ! i) = (case map_of kvs ''name'' of Some v \<Rightarrow> v | None \<Rightarrow> JStr ''live_chat''))"
    if i: "i < length entries" for i
  proof -
    from each i len have "map Inr bs ! i = map (\<lambda>e. fst (LiveChatBot lib e)) entries ! i"
      by simp
    with i len have built: "fst (LiveChatBot lib (entries ! i)) = Inr (bs ! i)"
      by simp
    from LiveChatBot_success [OF built] built show ?thesis by auto
  qed
  with m len show ?thesis by auto
qed

text \<open>
  The amended claim at two entries that are both named \<^verbatim>\<open>relay\<close>.
\<close>

theorem C7_witness:
  "\<exists>m. fst (DiscordBotManager recording
         (\<lambda>p. if p = ''configuration.json''
              then Readable (Some (JObj [(''bots'',
                     JArr [JObj [(''auth'', JStr ''token-one''), (''name'', JStr ''relay'')],
                           JObj [(''auth'', JStr ''token-two''), (''name'', JStr ''relay'')]])]))
              else NoFile)
         (Some ''configuration.json'')) = Inr m
      \<and> length (bots m) = 2
      \<and> name (bots m ! 0) = JStr ''relay''
      \<and> name (bots m ! 1) = JStr ''relay''"
proof -
  let ?e1 = "JObj [(''auth'', JStr ''token-one''), (''name'', JStr ''relay'')]"
  let ?e2 = "JObj [(''auth'', JStr ''token-two''), (''name'', JStr ''relay'')]"
  let ?fs = "\<lambda>p. if p = ''configuration.json''
              then Readable (Some (JObj [(''bots'', JArr [?e1, ?e2])]))
              else NoFile"
  have 1: "?fs ''configuration.json'' = Readable (Some (JObj [(''bots'', JArr [?e1, ?e2])]))"
    by simp
  have 2: "map_of [(''bots'', JArr [?e1, ?e2])] ''bots'' = Some (JArr [?e1, ?e2])"
    by simp
  have "fst (LiveChatBot recording ?e1) =
      Inr \<lparr>name = JStr ''relay'', display_name = JStr ''Live Chat'', client = None\<rparr>"
    "fst (LiveChatBot recording ?e2) =
      Inr \<lparr>name = JStr ''relay'', display_name = JStr ''Live Chat'', client = None\<rparr>"
    by code_simp+
  then have 3: "\<forall>e \<in> set [?e1, ?e2]. \<exists>b. fst (LiveChatBot recording e) = Inr b"
    by simp
  from C7_duplicate_names_accepted [where fs = ?fs and path = "''configuration.json''", OF 1 2 3]
  obtain m where
    m: "fst (DiscordBotManager recording ?fs (Some ''configuration.json'')) = Inr m"
    and len: "length (bots m) = length [?e1, ?e2]"
    and each: "\<forall>i < length [?e1, ?e2].
          fst (LiveChatBot recording ([?e1, ?e2] ! i)) = Inr (bots m ! i)
          \<and> (\<exists>kvs. [?e1, ?e2] ! i = JObj kvs
                \<and> name (bots m ! i) =
                    (case map_of kvs ''name'' of Some v \<Rightarrow> v | None \<Rightarrow> JStr ''live_chat''))"
    by blast
  from each [rule_format, of 0] have n0: "name (bots m ! 0) = JStr ''relay''" by auto
  from each [rule_format, of 1] have n1: "name (bots m ! 1) = JStr ''relay''" by auto
  from m len n0 n1 show ?thesis by auto
qed

section \<open>The entry of the program\<close>

lemma os_path_join_configuration:
  "os_path_join (os_path_join directory []) ''configuration.json'' =
     (if directory = [] then ''configuration.json''
      else if last directory = CHR ''/'' then directory @ ''configuration.json''
      else directory @ ''/configuration.json'')"
  by (simp add: os_path_join_def)

lemma DISCORD_CONFIGURATION_PATH_eq:
  "DISCORD_CONFIGURATION_PATH env =
     os_path_join
       (os_path_join (case drop 1 (argv env) of [] \<Rightarrow> cwd env | d # others \<Rightarrow> d) [])
       ''configuration.json''"
  by (cases "drop 1 (argv env)") (simp_all add: DISCORD_CONFIGURATION_PATH_def Let_def)

lemma DiscordBotManager_no_file:
  "fs path = NoFile \<Longrightarrow>
   DiscordBotManager lib fs (Some path) = (Inl (IOError ''configuration_path is not a file.''), [])"
  by (simp add: DiscordBotManager_def isfile_def raise_def)

lemma DiscordBotManager_unreadable:
  "fs path = Unreadable \<Longrightarrow>
   DiscordBotManager lib fs (Some path) = (Inl (IOError ''configuration_path is not readable.''), [])"
  by (simp add: DiscordBotManager_def isfile_def access_R_OK_def raise_def)

lemma DiscordBotManager_malformed:
  "fs path = Readable None \<Longrightarrow>
   DiscordBotManager lib fs (Some path) = (Inl JSONDecodeError, [])"
  by (simp add: DiscordBotManager_def isfile_def access_R_OK_def json_load_def raise_def)

text \<open>
  Claim C8.  The module-level code reads at most one argument: the directory is the
  first argument after the program name when there is one (further arguments are not
  read) and the real path of the current directory otherwise.  The file it opens is
  \<^verbatim>\<open>configuration.json\<close> in that directory.  When that path is not a file, is not
  readable, or does not hold JSON, the construction of the manager raises
  (\<^verbatim>\<open>IOError\<close>, \<^verbatim>\<open>IOError\<close>, and the decoder's error), no manager is constructed,
  nothing has been logged, and the uncaught exception ends the program with exit
  status 1.
\<close>

theorem C8_entry_reads_configuration_json:
  "(let directory = (case drop 1 (argv env) of [] \<Rightarrow> cwd env | d # others \<Rightarrow> d);
        path = (if directory = [] then ''configuration.json''
                else if last directory = CHR ''/'' then directory @ ''configuration.json''
                else directory @ ''/configuration.json'')
    in DISCORD_CONFIGURATION_PATH env = path
       \<and> DISCORD_BOT_MANAGER lib env = DiscordBotManager lib (files env) (Some path)
       \<and> (files env path = NoFile \<longrightarrow>
            DISCORD_BOT_MANAGER lib env = (Inl (IOError ''configuration_path is not a file.''), []))
       \<and> (files env path = Unreadable \<longrightarrow>
            DISCORD_BOT_MANAGER lib env = (Inl (IOError ''configuration_path is not readable.''), []))
       \<and> (files env path = Readable None \<longrightarrow>
            DISCORD_BOT_MANAGER lib env = (Inl JSONDecodeError, []))
       \<and> (files env path \<in> {NoFile, Unreadable, Readable None} \<longrightarrow>
            exit_status (DISCORD_BOT_MANAGER lib env) = 1))"
proof -
  define directory where "directory = (case drop 1 (argv env) of [] \<Rightarrow> cwd env | d # others \<Rightarrow> d)"
  define path where "path = (if directory = [] then ''configuration.json''
                else if last directory = CHR ''/'' then directory @ ''configuration.json''
                else directory @ ''/configuration.json'')"
  have p: "DISCORD_CONFIGURATION_PATH env = path"
    unfolding DISCORD_CONFIGURATION_PATH_eq path_def directory_def
    by (rule os_path_join_configuration)
  then have m: "DISCORD_BOT_MANAGER lib env = DiscordBotManager lib (files env) (Some path)"
    by (simp add: DISCORD_BOT_MANAGER_def)
  have "DISCORD_CONFIGURATION_PATH env = path
       \<and> DISCORD_BOT_MANAGER lib env = DiscordBotManager lib (files env) (Some path)
       \<and> (files env path = NoFile \<longrightarrow>
            DISCORD_BOT_MANAGER lib env = (Inl (IOError ''configuration_path is not a file.''), []))
       \<and> (files env path = Unreadable \<longrightarrow>
            DISCORD_BOT_MANAGER lib env = (Inl (IOError ''configuration_path is not readable.''), []))
       \<and> (files env path = Readable None \<longrightarrow>
            DISCORD_BOT_MANAGER lib env = (Inl JSONDecodeError, []))
       \<and> (files env path \<in> {NoFile, Unreadable, Readable None} \<longrightarrow>
            exit_status (DISCORD_BOT_MANAGER lib env) = 1)"
    using p m
    by (auto simp add: DiscordBotManager_no_file DiscordBotManager_unreadable
        DiscordBotManager_malformed exit_status_def)
  then show ?thesis
    unfolding Let_def path_def directory_def .
qed

text \<open>
  Claim C8 with a directory argument (and a further argument that is not read) whose
  file is not JSON, with no argument and no file, and with no argument and a file that
  is not readable.
\<close>

theorem C8_witness:
  "DISCORD_CONFIGURATION_PATH \<lparr>argv = [''live_chat.py'', ''/srv/bots'', ''ignored''], cwd = ''/home/bot'',
       files = (\<lambda>p. if p = ''/srv/bots/configuration.json'' then Readable None else NoFile)\<rparr>
     = ''/srv/bots/configuration.json''
   \<and> DISCORD_BOT_MANAGER recording
       \<lparr>argv = [''live_chat.py'', ''/srv/bots'', ''ignored''], cwd = ''/home/bot'',
        files = (\<lambda>p. if p = ''/srv/bots/configuration.json'' then Readable None else NoFile)\<rparr>
     = (Inl JSONDecodeError, [])
   \<and> DISCORD_BOT_MANAGER recording
       \<lparr>argv = [''live_chat.py''], cwd = ''/home/bot'', files = (\<lambda>p. NoFile)\<rparr>
     = (Inl (IOError ''configuration_path is not a file.''), [])
   \<and> DISCORD_BOT_MANAGER recording
       \<lparr>argv = [''live_chat.py''], cwd = ''/home/bot'',
        files = (\<lambda>p. if p = ''/home/bot/configuration.json'' then Unreadable else NoFile)\<rparr>
     = (Inl (IOError ''configuration_path is not readable.''), [])
   \<and> exit_status (DISCORD_BOT_MANAGER recording
       \<lparr>argv = [''live_chat.py''], cwd = ''/home/bot'', files = (\<lambda>p. NoFile)\<rparr>) = 1"
proof -
  let ?e1 = "\<lparr>argv = [''live_chat.py'', ''/srv/bots'', ''ignored''], cwd = ''/home/bot'',
       files = (\<lambda>p. if p = ''/srv/bots/configuration.json'' then Readable None else NoFile)\<rparr>"
  let ?e2 = "\<lparr>argv = [''live_chat.py''], cwd = ''/home/bot'', files = (\<lambda>p. NoFile)\<rparr>"
  let ?e3 = "\<lparr>argv = [''live_chat.py''], cwd = ''/home/bot'',
        files = (\<lambda>p. if p = ''/home/bot/configuration.json'' then Unreadable else NoFile)\<rparr>"
  from C8_entry_reads_configuration_json [of ?e1 recording]
  have 1: "DISCORD_CONFIGURATION_PATH ?e1 = ''/srv/bots/configuration.json''"
    and 2: "DISCORD_BOT_MANAGER recording ?e1 = (Inl JSONDecodeError, [])"
    by (auto simp add: Let_def)
  from C8_entry_reads_configuration_json [of ?e2 recording]
  have 3: "DISCORD_BOT_MANAGER recording ?e2 = (Inl (IOError ''configuration_path is not a file.''), [])"
    and 5: "exit_status (DISCORD_BOT_MANAGER recording ?e2) = 1"
    by (auto simp add: Let_def)
  from C8_entry_reads_configuration_json [of ?e3 recording]
  have 4: "DISCORD_BOT_MANAGER recording ?e3 = (Inl (IOError ''configuration_path is not readable.''), [])"
    by (auto simp add: Let_def)
  from 1 2 3 4 5 show ?thesis by blast
qed

section \<open>Order of the session states\<close>

lemma step_into_Connected:
  "step s e = Some Connected \<Longrightarrow> s = Connecting \<or> (\<exists>reason. s = Degraded reason)"
  by (cases s; cases e) simp_all

lemma step_into_Degraded:
  "step s e = Some (Degraded reason) \<Longrightarrow> s = Connected"
  by (cases s; cases e) simp_all

lemma step_into_Connecting:
  "step s e = Some Connecting \<Longrightarrow> s = Disconnected"
  by (cases s; cases e) simp_all

lemma step_from_Disconnected:
  "step Disconnected e = Some s' \<Longrightarrow> s' = Connecting \<or> s' = ShuttingDown"
  by (cases e) auto

lemma run_not_empty: "run s es \<noteq> []"
  by (induction es arbitrary: s) (simp_all split: option.splits)

lemma hd_run: "hd (run s es) = s"
  by (induction es arbitrary: s) (simp_all split: option.splits)

lemma run_steps: "successively (\<lambda>a b. \<exists>e. step a e = Some b) (run s es)"
proof (induction es arbitrary: s)
  case Nil
  show ?case by simp
next
  case (Cons e es)
  show ?case
  proof (cases "step s e")
    case None
    with Cons.IH [of s] show ?thesis by simp
  next
    case (Some s')
    with Cons.IH [of s'] hd_run [of s' es] run_not_empty [of s' es] show ?thesis
      by (auto simp add: successively_Cons)
  qed
qed

lemma successively_snocD:
  "successively P (xs @ [b]) \<Longrightarrow> xs \<noteq> [] \<Longrightarrow> P (last xs) b"
  by (simp add: successively_append_iff)

lemma successively_snoc2D:
  "successively P (xs @ [a, b]) \<Longrightarrow> successively P (xs @ [a]) \<and> P a b"
  by (auto simp add: successively_append_iff)

lemma Connecting_before_Connected:
  assumes "successively (\<lambda>a b. \<exists>e. step a e = Some b) (Disconnected # between @ [s])"
    and "s = Connected \<or> (\<exists>reason. s = Degraded reason)"
  shows "Connecting \<in> set between"
  using assms
proof (induction between arbitrary: s rule: rev_induct)
  case Nil
  then obtain e where "step Disconnected e = Some s" by auto
  from step_from_Disconnected [OF this] Nil.prems(2) show ?case by auto
next
  case (snoc p between)
  from snoc.prems(1) have "successively (\<lambda>a b. \<exists>e. step a e = Some b) ((Disconnected # between) @ [p, s])"
    by simp
  from successively_snoc2D [OF this]
  have chain: "successively (\<lambda>a b. \<exists>e. step a e = Some b) (Disconnected # between @ [p])"
    and last: "\<exists>e. step p e = Some s"
    by simp_all
  from last obtain e where e: "step p e = Some s" ..
  from snoc.prems(2) show ?case
  proof
    assume "s = Connected"
    with e step_into_Connected have "p = Connecting \<or> (\<exists>reason. p = Degraded reason)" by blast
    then show ?thesis
    proof
      assume "p = Connecting"
      then show ?thesis by simp
    next
      assume "\<exists>reason. p = Degraded reason"
      with snoc.IH [OF chain] show ?thesis by simp
    qed
  next
    assume "\<exists>reason. s = Degraded reason"
    with e step_into_Degraded have "p = Connected" by blast
    with snoc.IH [OF chain] show ?thesis by simp
  qed
qed

text \<open>
  Claim C9, for the state machine modelled from the specification.  A session starts
  \<open>Disconnected\<close>.  For every sequence of events it processes, in the sequence of
  states it passes through:
  \<^item> every \<open>Connected\<close> has a \<open>Connecting\<close> somewhere before it;
  \<^item> between a \<open>Disconnected\<close> and a later \<open>Connected\<close> there is a \<open>Connecting\<close>,
    so a session that has dropped does not become connected again without a new
    attempt;
  \<^item> between two \<open>Connecting\<close> states there is a \<open>Disconnected\<close>: a second attempt
    does not begin before the session has been disconnected.
\<close>

theorem C9_session_state_order:
  "(\<forall>before after. run Disconnected events = before @ Connected # after \<longrightarrow>
       Connecting \<in> set before)
   \<and> (\<forall>before between after.
        run Disconnected events = before @ Disconnected # between @ Connected # after \<longrightarrow>
          Connecting \<in> set between)
   \<and> (\<forall>before between after.
        run Disconnected events = before @ Connecting # between @ Connecting # after \<longrightarrow>
          Disconnected \<in> set between)"
proof (intro conjI allI impI)
  fix before between after
  assume eq: "run Disconnected events = before @ Disconnected # between @ Connected # after"
  from run_steps [of Disconnected events] eq
  have "successively (\<lambda>a b. \<exists>e. step a e = Some b)
          (before @ (Disconnected # between @ [Connected]) @ after)"
    by simp
  then have "successively (\<lambda>a b. \<exists>e. step a e = Some b) (Disconnected # between @ [Connected])"
    unfolding successively_append_iff by blast
  from Connecting_before_Connected [OF this] show "Connecting \<in> set between" by simp
next
  fix before after
  assume eq: "run Disconnected events = before @ Connected # after"
  with hd_run [of Disconnected events] obtain between where b: "before = Disconnected # between"
    by (cases before) auto
  from run_steps [of Disconnected events] eq b
  have "successively (\<lambda>a b. \<exists>e. step a e = Some b) ((Disconnected # between @ [Connected]) @ after)"
    by simp
  then have "successively (\<lambda>a b. \<exists>e. step a e = Some b) (Disconnected # between @ [Connected])"
    unfolding successively_append_iff by blast
  from Connecting_before_Connected [OF this] b show "Connecting \<in> set before" by simp
next
  fix before between after
  assume eq: "run Disconnected events = before @ Connecting # between @ Connecting # after"
  from run_steps [of Disconnected events] eq
  have "successively (\<lambda>a b. \<exists>e. step a e = Some b)
          (before @ ((Connecting # between) @ [Connecting]) @ after)"
    by simp
  then have "successively (\<lambda>a b. \<exists>e. step a e = Some b) ((Connecting # between) @ [Connecting])"
    unfolding successively_append_iff by blast
  from successively_snocD [OF this]
  have "\<exists>e. step (last (Connecting # between)) e = Some Connecting"
    by blast
  then have l: "last (Connecting # between) = Disconnected"
    using step_into_Connecting by blast
  then have "between \<noteq> []" by auto
  with l show "Disconnected \<in> set between"
    by (metis last.simps last_in_set)
qed

text \<open>
  Claim C9 on a run that connects, degrades, recovers, loses the connection, receives
  a handshake it has not asked for (not taken), and connects again.
\<close>

theorem C9_witness:
  "run Disconnected
     [SessionStart, HandshakeSucceeded, TransientError ''timeout'', RecoverySignal,
      ConnectionLost, HandshakeSucceeded, BackoffElapsed, HandshakeSucceeded] =
     [Disconnected, Connecting, Connected, Degraded ''timeout'', Connected,
      Disconnected, Connecting, Connected]
   \<and> Connecting \<in> set [Disconnected, Connecting, Connected, Degraded ''timeout'', Connected,
                         Disconnected, Connecting]
   \<and> Connecting \<in> set [Connecting]
   \<and> Disconnected \<in> set [Connected, Degraded ''timeout'', Connected, Disconnected]"
proof -
  let ?events = "[SessionStart, HandshakeSucceeded, TransientError ''timeout'', RecoverySignal,
      ConnectionLost, HandshakeSucceeded, BackoffElapsed, HandshakeSucceeded]"
  have r: "run Disconnected ?events =
     [Disconnected, Connecting, Connected, Degraded ''timeout'', Connected,
      Disconnected, Connecting, Connected]"
    by simp
  note c = C9_session_state_order [of ?events, unfolded r]
  have 1: "Connecting \<in> set [Disconnected, Connecting, Connected, Degraded ''timeout'', Connected,
                         Disconnected, Connecting]"
    by (rule c [THEN conjunct1, rule_format, of _ "[]"]) simp
  have 2: "Connecting \<in> set [Connecting]"
    by (rule c [THEN conjunct2, THEN conjunct1, rule_format,
          of "[Disconnected, Connecting, Connected, Degraded ''timeout'', Connected]" _ "[]"]) simp
  have 3: "Disconnected \<in> set [Connected, Degraded ''timeout'', Connected, Disconnected]"
    by (rule c [THEN conjunct2, THEN conjunct2, rule_format, of "[Disconnected]" _ "[Connected]"]) simp
  from r 1 2 3 show ?thesis by blast
qed

end
